(* ===== verification/Prelude.thy ===== *)
theory Prelude
  imports Main "HOL-Library.Multiset"
begin

text \<open>
  Shared vocabulary of the dashboard development: the fact collections the component
  theories fill, and the generic lemmas on lists, association lists and multisets that
  the proofs about the item list of \<open>src/src/App.tsx\<close> use.  The item list of the
  dashboard is keyed by the widget id, so most of these lemmas are about lists whose
  elements are projected to a key (\<open>map key xs\<close>): filtering by key, appending a fresh
  key, and permuting a list without changing its keys.
\<close>

named_theorems handler_simps
  "equations of the event handlers of App.tsx after the state queues are committed"

named_theorems js_simps
  "evaluation rules of the JavaScript runtime functions the component calls"

type_synonym widget_id = string

subsection \<open>Filtering a keyed list\<close>

lemma set_map_filter_key:
  "set (map key (filter (\<lambda>it. key it \<noteq> k) xs)) = set (map key xs) - {k}"
  by auto

lemma distinct_map_filter_key [intro]:
  "distinct (map key xs) \<Longrightarrow> distinct (map key (filter P xs))"
  by (rule distinct_map_filter)

lemma filter_key_absent:
  "k \<notin> set (map key xs) \<Longrightarrow> filter (\<lambda>it. key it \<noteq> k) xs = xs"
  by (induction xs) auto

lemma map_of_filter_key:
  "map_of (map (\<lambda>it. (key it, val it)) (filter (\<lambda>it. key it \<noteq> k) xs))
     = (map_of (map (\<lambda>it. (key it, val it)) xs))(k := None)"
  by (induction xs) (auto simp: fun_upd_twist)

subsection \<open>Appending a fresh key\<close>

lemma map_of_append_fresh:
  "key it \<notin> set (map key xs) \<Longrightarrow>
   map_of (map (\<lambda>it. (key it, val it)) (xs @ [it])) =
     (map_of (map (\<lambda>it. (key it, val it)) xs))(key it \<mapsto> val it)"
  by (induction xs) (auto simp: fun_upd_twist)

subsection \<open>Permutations that keep the keys\<close>

lemma mset_eq_keys_set:
  "mset (map key ys) = mset (map key xs) \<Longrightarrow> set (map key ys) = set (map key xs)"
  by (metis set_mset_mset)

lemma mset_eq_keys_distinct:
  "mset (map key ys) = mset (map key xs) \<Longrightarrow> distinct (map key ys) = distinct (map key xs)"
  by (metis distinct_count_atmost_1 set_mset_mset count_mset)

lemmas keyed_list_lemmas =
  set_map_filter_key filter_key_absent map_of_filter_key mset_eq_keys_set mset_eq_keys_distinct

end
