(* ===== verification/Js_Runtime.thy ===== *)
theory Js_Runtime
  imports Prelude
begin

text \<open>
  The JavaScript built-ins that \<open>src/src/App.tsx\<close> calls on its data, modelled from the
  ECMAScript specification (they are not code of the repository):
  \<^item> \<open>parseInt(string, radix)\<close> (ECMA-262, 19.2.5), used by \<open>handleColumnsChange\<close>
    with radix 10; \<open>NaN\<close> is \<open>None\<close>;
  \<^item> \<open>Number::toString\<close> on a non-negative integer, which the template literal
    \<open>`new-${newCounter}`\<close> of \<open>onAddItem\<close> calls;
  \<^item> the remainder operator \<open>%\<close> (\<open>Number::remainder\<close>, truncating) of
    \<open>(items.length * 2) % columns\<close>;
  \<^item> truthiness of a \<open>string | null\<close> (\<open>if (selectedItemId)\<close>);
  \<^item> \<open>String.prototype.toUpperCase\<close> for the widget label.
  JavaScript strings are sequences of UTF-16 code units; here a string is a list of
  8-bit \<open>char\<close>s, so the whitespace set of \<open>parseInt\<close> is its part below 256 and
  \<open>toUpperCase\<close> is its ASCII part.  Numbers are exact integers: the rounding of
  \<open>parseInt\<close> results beyond \<open>2^53\<close> is not modelled.
\<close>

subsection \<open>parseInt\<close>

text \<open>WhiteSpace and LineTerminator code points below 256 (StrWhiteSpaceChar).\<close>

definition js_whitespace :: "char \<Rightarrow> bool" where
  "js_whitespace c \<longleftrightarrow>
     c \<in> set [CHR 0x09, CHR 0x0A, CHR 0x0B, CHR 0x0C, CHR 0x0D, CHR 0x20, CHR 0xA0]"

text \<open>
  The value of a character as a digit of radix up to 36 (\<open>0-9\<close>, \<open>a-z\<close>, \<open>A-Z\<close>);
  36 for a character that is a digit of no radix.
\<close>

definition char_digit_value :: "char \<Rightarrow> nat" where
  "char_digit_value c =
     (let n = of_char c :: nat in
      if 48 \<le> n \<and> n \<le> 57 then n - 48
      else if 97 \<le> n \<and> n \<le> 122 then n - 87
      else if 65 \<le> n \<and> n \<le> 90 then n - 55
      else 36)"

text \<open>The mathematical value of a digit string in radix \<open>R\<close>.\<close>

definition digits_value :: "nat \<Rightarrow> string \<Rightarrow> nat" where
  "digits_value R cs = foldl (\<lambda>acc c. R * acc + char_digit_value c) 0 cs"

text \<open>
  \<open>parseInt\<close> after \<open>ToString\<close> and \<open>ToInt32(radix)\<close>: strip leading white space,
  read one sign, reject a radix outside \<open>2..36\<close> other than 0, strip a \<open>0x\<close> prefix
  when the radix is 0 or 16, then read the longest prefix of radix digits; no digit
  is \<open>NaN\<close>.  The value 0 is returned as 0 for both signs (JavaScript's \<open>-0\<close>
  compares like 0).
\<close>

definition parseInt :: "string \<Rightarrow> int \<Rightarrow> int option" where
  "parseInt string radix =
     (let S = dropWhile js_whitespace string;
          sign = (if take 1 S = ''-'' then -1 else 1 :: int);
          S = (if take 1 S = ''-'' \<or> take 1 S = ''+'' then drop 1 S else S)
      in if radix \<noteq> 0 \<and> (radix < 2 \<or> 36 < radix) then None
         else
           (let hex = ((radix = 0 \<or> radix = 16) \<and> (take 2 S = ''0x'' \<or> take 2 S = ''0X''));
                S = (if hex then drop 2 S else S);
                R = (if hex then 16 else if radix = 0 then 10 else nat radix);
                Z = takeWhile (\<lambda>c. char_digit_value c < R) S
            in if Z = [] then None else Some (sign * int (digits_value R Z))))"

subsection \<open>Number to string\<close>

definition digit_char :: "nat \<Rightarrow> char" where
  "digit_char d = char_of (48 + d)"

text \<open>\<open>Number::toString(n)\<close> for a non-negative integer: its decimal digits, no leading zero.\<close>

fun nat_to_js_string :: "nat \<Rightarrow> string" where
  "nat_to_js_string n =
     (if n < 10 then [digit_char n] else nat_to_js_string (n div 10) @ [digit_char (n mod 10)])"

declare nat_to_js_string.simps [simp del]

subsection \<open>Remainder, truthiness, upper case\<close>

text \<open>
  \<open>n % d\<close> on integral numbers: the sign of the dividend, the magnitude of
  \<open>|n| mod |d|\<close>.  JavaScript gives \<open>NaN\<close> for \<open>d = 0\<close>; the dashboard only divides by
  its column count, which is positive in every reachable state (\<open>Dashboard\<close>).
\<close>

definition js_rem :: "int \<Rightarrow> int \<Rightarrow> int" where
  "js_rem n d = sgn n * (\<bar>n\<bar> mod \<bar>d\<bar>)"

text \<open>A string is truthy when it is not empty; \<open>null\<close> is falsy.\<close>

fun js_truthy :: "string option \<Rightarrow> bool" where
  "js_truthy None = False"
| "js_truthy (Some s) = (s \<noteq> [])"

definition js_toUpperCase :: "string \<Rightarrow> string" where
  "js_toUpperCase s =
     map (\<lambda>c. let n = of_char c :: nat in if 97 \<le> n \<and> n \<le> 122 then char_of (n - 32) else c) s"

subsection \<open>Digits and the decimal rendering\<close>

lemma of_char_digit_char [simp]: "d < 10 \<Longrightarrow> of_char (digit_char d) = 48 + d"
  by (simp add: digit_char_def)

lemma char_digit_value_digit_char [simp]:
  "d < 10 \<Longrightarrow> char_digit_value (digit_char d) = d"
  by (simp add: char_digit_value_def Let_def)

lemma js_whitespace_of_char:
  "js_whitespace c \<Longrightarrow> (of_char c :: nat) \<in> {9, 10, 11, 12, 13, 32, 160}"
  by (auto simp: js_whitespace_def)

lemma digit_char_not_whitespace [simp]:
  "d < 10 \<Longrightarrow> \<not> js_whitespace (digit_char d)"
  using js_whitespace_of_char [of "digit_char d"] by auto

lemma digit_char_not_sign [simp]:
  "d < 10 \<Longrightarrow> digit_char d \<noteq> CHR ''-''" "d < 10 \<Longrightarrow> digit_char d \<noteq> CHR ''+''"
proof -
  assume d: "d < 10"
  show "digit_char d \<noteq> CHR ''-''"
  proof
    assume "digit_char d = CHR ''-''"
    then have "of_char (digit_char d) = (of_char (CHR ''-'') :: nat)" by simp
    with d show False by simp
  qed
  show "digit_char d \<noteq> CHR ''+''"
  proof
    assume "digit_char d = CHR ''+''"
    then have "of_char (digit_char d) = (of_char (CHR ''+'') :: nat)" by simp
    with d show False by simp
  qed
qed

lemma nat_to_js_string_digits:
  "set (nat_to_js_string n) \<subseteq> digit_char ` {..<10}"
proof (induction n rule: nat_to_js_string.induct)
  case (1 n)
  then show ?case
    by (subst nat_to_js_string.simps) auto
qed

lemma nat_to_js_string_not_Nil [simp]: "nat_to_js_string n \<noteq> []"
  by (subst nat_to_js_string.simps) simp

lemma digits_value_snoc [simp]:
  "digits_value R (cs @ [c]) = R * digits_value R cs + char_digit_value c"
  by (simp add: digits_value_def)

lemma digits_value_nat_to_js_string [simp]:
  "digits_value 10 (nat_to_js_string n) = n"
proof (induction n rule: nat_to_js_string.induct)
  case (1 n)
  show ?case
  proof (cases "n < 10")
    case True
    then show ?thesis by (subst nat_to_js_string.simps) (simp add: digits_value_def)
  next
    case False
    with "1.IH" show ?thesis by (subst nat_to_js_string.simps) simp
  qed
qed

lemma nat_to_js_string_inj:
  "nat_to_js_string m = nat_to_js_string n \<longleftrightarrow> m = n"
  by (metis digits_value_nat_to_js_string)

subsection \<open>parseInt on decimal input\<close>

text \<open>
  Radix 10 reads the longest prefix of decimal digits after white space and a sign and
  ignores the rest of the string: \<open>parseInt_decimal_fraction\<close> is the reason why the
  column field accepts \<open>2.5\<close> as 2.  Rendering a counter and reading it back is the
  identity (\<open>parseInt_nat_to_js_string\<close>), so distinct counters give distinct ids.
\<close>

lemma parseInt_nat_to_js_string:
  "parseInt (nat_to_js_string n) 10 = Some (int n)"
proof -
  let ?s = "nat_to_js_string n"
  have digits: "set ?s \<subseteq> digit_char ` {..<10}"
    by (rule nat_to_js_string_digits)
  obtain c cs where s: "?s = c # cs" by (cases ?s) auto
  with digits obtain d where d: "d < 10" "c = digit_char d" by auto
  have ws: "dropWhile js_whitespace ?s = ?s"
    using s d by simp
  have sign: "take 1 ?s \<noteq> ''-''" "take 1 ?s \<noteq> ''+''"
    using s d by simp_all
  have "\<forall>c \<in> set ?s. char_digit_value c < 10"
    using digits by auto
  then have tw: "takeWhile (\<lambda>c. char_digit_value c < 10) ?s = ?s"
    by (simp add: takeWhile_eq_all_conv)
  show ?thesis
    using sign by (simp add: parseInt_def Let_def ws tw del: takeWhile_eq_all_conv)
qed
lemma decimal_digit_of_char:
  "char_digit_value c < 10 \<Longrightarrow> 48 \<le> (of_char c :: nat) \<and> (of_char c :: nat) \<le> 57"
  by (auto simp: char_digit_value_def Let_def split: if_splits)

lemma decimal_digit_not_special:
  assumes "char_digit_value c < 10"
  shows "\<not> js_whitespace c" "c \<noteq> CHR ''-''" "c \<noteq> CHR ''+''"
  using decimal_digit_of_char [OF assms] js_whitespace_of_char [of c] by auto

lemma parseInt_decimal_prefix:
  assumes ws: "\<forall>c \<in> set sp. js_whitespace c"
    and ds: "ds \<noteq> []" "\<forall>c \<in> set ds. char_digit_value c < 10"
    and stop: "rest = [] \<or> 10 \<le> char_digit_value (hd rest)"
  shows "parseInt (sp @ ds @ rest) 10 = Some (int (digits_value 10 ds))"
proof -
  obtain c cs where dc: "ds = c # cs" using ds(1) by (cases ds) auto
  have c: "char_digit_value c < 10" using ds(2) dc by simp
  have "dropWhile js_whitespace (sp @ ds @ rest) = ds @ rest"
    using ws dc decimal_digit_not_special(1) [OF c] by (simp add: dropWhile_append)
  moreover have "take 1 (ds @ rest) \<noteq> ''-''" "take 1 (ds @ rest) \<noteq> ''+''"
    using dc decimal_digit_not_special(2,3) [OF c] by simp_all
  moreover have "takeWhile (\<lambda>c. char_digit_value c < 10) (ds @ rest) = ds"
    using ds(2) stop by (cases rest) (auto simp: takeWhile_append)
  ultimately show ?thesis
    using ds(1) by (simp add: parseInt_def Let_def del: takeWhile_eq_all_conv)
qed

lemma parseInt_decimal_fraction:
  "parseInt (nat_to_js_string n @ ''.'' @ f) 10 = Some (int n)"
proof -
  have "\<forall>c \<in> set (nat_to_js_string n). char_digit_value c < 10"
    using nat_to_js_string_digits [of n] by auto
  moreover have "10 \<le> char_digit_value (hd (''.'' @ f))"
    by (simp add: char_digit_value_def)
  ultimately show ?thesis
    using parseInt_decimal_prefix [of "[]" "nat_to_js_string n" "''.'' @ f"] by simp
qed

text \<open>A sign directly before the digits: \<open>parseInt\<close> reads it, then the digits.\<close>

lemma parseInt_signed_prefix:
  assumes sg: "sg \<in> {'''', ''-'', ''+''}"
    and ds: "ds \<noteq> []" "\<forall>c \<in> set ds. char_digit_value c < 10"
    and stop: "rest = [] \<or> 10 \<le> char_digit_value (hd rest)"
  shows "parseInt (sg @ ds @ rest) 10 = Some ((if sg = ''-'' then -1 else 1) * int (digits_value 10 ds))"
proof -
  obtain c cs where dc: "ds = c # cs" using ds(1) by (cases ds) auto
  have c: "char_digit_value c < 10" using ds(2) dc by simp
  have tw: "takeWhile (\<lambda>c. char_digit_value c < 10) (ds @ rest) = ds"
    using ds(2) stop by (cases rest) (auto simp: takeWhile_append)
  have "take 1 (ds @ rest) \<noteq> ''-''" "take 1 (ds @ rest) \<noteq> ''+''"
    using dc decimal_digit_not_special(2,3) [OF c] by simp_all
  moreover have "\<not> js_whitespace c" by (rule decimal_digit_not_special(1) [OF c])
  ultimately show ?thesis
    using sg ds(1) tw dc by (auto simp: parseInt_def Let_def js_whitespace_def
        simp del: takeWhile_eq_all_conv)
qed

text \<open>No digit after the sign: \<open>NaN\<close>.\<close>

lemma parseInt_no_digits:
  assumes sg: "sg \<in> {'''', ''-'', ''+''}"
    and rest: "rest = [] \<or> (10 \<le> char_digit_value (hd rest) \<and> \<not> js_whitespace (hd rest) \<and>
                             hd rest \<noteq> CHR ''-'' \<and> hd rest \<noteq> CHR ''+'')"
  shows "parseInt (sg @ rest) 10 = None"
  using sg rest by (cases rest) (auto simp: parseInt_def Let_def js_whitespace_def)

end
