(* ===== verification/React_Hooks.thy ===== *)
theory React_Hooks
  imports Prelude
begin

text \<open>
  React's \<open>useState\<close>, the only state mechanism \<open>src/src/App.tsx\<close> uses.  A setter
  returned by \<open>useState\<close> does not write the state: it appends a
  \<open>SetStateAction\<close> to the hook's update queue, which is either a new value
  (\<open>setItems(layout)\<close>) or an updater function of the previous value
  (\<open>setItems(prev => ...)\<close>).  When React renders again it folds the queue over the
  committed value, in the order the setters were called.  An event handler reads the
  values of the render it was created in (its closure), not the queue.
  The difference between the two kinds of action is what \<open>Dashboard\<close> uses to
  compare the handlers that update functionally with the ones that do not.
\<close>

datatype 'a set_state_action = SetValue 'a | Updater "'a \<Rightarrow> 'a"

primrec apply_action :: "'a \<Rightarrow> 'a set_state_action \<Rightarrow> 'a" where
  "apply_action v (SetValue v') = v'"
| "apply_action v (Updater f) = f v"

definition process_queue :: "'a \<Rightarrow> 'a set_state_action list \<Rightarrow> 'a" where
  "process_queue base q = foldl apply_action base q"

lemma process_queue_Nil [simp]: "process_queue v [] = v"
  by (simp add: process_queue_def)

lemma process_queue_Cons [simp]: "process_queue v (a # q) = process_queue (apply_action v a) q"
  by (simp add: process_queue_def)

lemma process_queue_append [simp]:
  "process_queue v (q @ q') = process_queue (process_queue v q) q'"
  by (simp add: process_queue_def)

text \<open>A queue ending in a value forgets everything before it.\<close>

lemma process_queue_last_value:
  "process_queue v (q @ [SetValue v']) = v'"
  by simp

text \<open>A queue of updaters is the composition of the updaters.\<close>

lemma process_queue_updaters:
  "process_queue v (map Updater fs) = fold (\<lambda>f x. f x) fs v"
  by (induction fs arbitrary: v) simp_all

end
