(* ===== verification/Layout.thy ===== *)
theory Layout
  imports Prelude
begin

text \<open>
  The data the dashboard hands to \<open>react-grid-layout\<close>: the \<open>Layout\<close> items of
  \<open>src/src/App.tsx\<close> (\<open>{i, x, y, w, h}\<close>, grid cells), with the row coordinate as a
  datatype because \<open>onAddItem\<close> writes \<open>y: Infinity\<close>, the library's sentinel for
  "below everything".  The row coordinates are ordered with \<open>Infinity\<close> on top, the
  order the library's \<open>Math.min(bottom(layout), l.y)\<close> uses to place such an item.
  The renderer itself is not code of the repository; its promise to the dashboard
  (spec section 4.3) is the predicate \<open>grid_contract\<close>: the layout it reports
  through \<open>onLayoutChange\<close> has the same ids as the items it was given, and every item
  lies on a finite row inside the column bounds.
\<close>

datatype ycoord = Row int | Infinity

instantiation ycoord :: linorder
begin

fun less_eq_ycoord :: "ycoord \<Rightarrow> ycoord \<Rightarrow> bool" where
  "less_eq_ycoord (Row a) (Row b) = (a \<le> b)"
| "less_eq_ycoord _ Infinity = True"
| "less_eq_ycoord Infinity (Row _) = False"

definition less_ycoord :: "ycoord \<Rightarrow> ycoord \<Rightarrow> bool" where
  "less_ycoord a b \<longleftrightarrow> a \<le> b \<and> \<not> b \<le> a"

instance
proof
  fix a b c :: ycoord
  show "a < b \<longleftrightarrow> a \<le> b \<and> \<not> b \<le> a" by (rule less_ycoord_def)
  show "a \<le> a" by (cases a) simp_all
  show "a \<le> b \<Longrightarrow> b \<le> c \<Longrightarrow> a \<le> c" by (cases a; cases b; cases c) simp_all
  show "a \<le> b \<Longrightarrow> b \<le> a \<Longrightarrow> a = b" by (cases a; cases b) simp_all
  show "a \<le> b \<or> b \<le> a" by (cases a; cases b) auto
qed

end

record layout_item =
  item_i :: widget_id
  item_x :: int
  item_y :: ycoord
  item_w :: int
  item_h :: int

definition item_in_bounds :: "int \<Rightarrow> layout_item \<Rightarrow> bool" where
  "item_in_bounds cols it \<longleftrightarrow>
     0 \<le> item_x it \<and> item_x it + item_w it \<le> cols \<and> 1 \<le> item_w it \<and> 1 \<le> item_h it \<and>
     (case item_y it of Row r \<Rightarrow> 0 \<le> r | Infinity \<Rightarrow> False)"

definition grid_contract :: "int \<Rightarrow> layout_item list \<Rightarrow> layout_item list \<Rightarrow> bool" where
  "grid_contract cols old new \<longleftrightarrow>
     mset (map item_i new) = mset (map item_i old) \<and> list_all (item_in_bounds cols) new"

text \<open>The data model of spec section 3: a non-negative column, a size of at least one
  cell, and a non-negative row or the \<open>Infinity\<close> sentinel that \<open>onAddItem\<close> writes.\<close>

definition item_well_formed :: "layout_item \<Rightarrow> bool" where
  "item_well_formed it \<longleftrightarrow>
     0 \<le> item_x it \<and> 1 \<le> item_w it \<and> 1 \<le> item_h it \<and>
     (case item_y it of Row r \<Rightarrow> 0 \<le> r | Infinity \<Rightarrow> True)"

lemma Infinity_top [simp]: "r \<le> Infinity"
  by (cases r) simp_all

lemma min_Infinity [simp]: "min r Infinity = r"
  by (simp add: min_def)

lemma grid_contract_ids:
  "grid_contract cols old new \<Longrightarrow> item_i ` set new = item_i ` set old"
  unfolding grid_contract_def using mset_eq_keys_set [of item_i new old] by simp

lemma grid_contract_distinct:
  "grid_contract cols old new \<Longrightarrow> distinct (map item_i new) = distinct (map item_i old)"
  unfolding grid_contract_def by (metis mset_eq_keys_distinct)

lemma item_in_bounds_well_formed:
  "item_in_bounds cols it \<Longrightarrow> item_well_formed it"
  by (auto simp: item_in_bounds_def item_well_formed_def split: ycoord.splits)

lemma grid_contract_well_formed:
  "grid_contract cols old new \<Longrightarrow> list_all item_well_formed new"
  by (auto simp: grid_contract_def list_all_iff intro: item_in_bounds_well_formed)

end
