(* ===== verification/Dashboard.thy ===== *)
theory Dashboard
  imports Js_Runtime React_Hooks Layout
begin

text \<open>
  The state and the event handlers of the component \<open>App\<close> of \<open>src/src/App.tsx\<close>.
  The four \<open>useState\<close> hooks are the fields of \<open>app_state\<close>; a handler reads the
  state of the last render (its closure) and returns the actions it queued on each hook
  (\<open>state_updates\<close>); \<open>commit\<close> is React's next render, which processes the queues.
  An event is one discrete user input or one \<open>onLayoutChange\<close> call of the grid; React
  renders after each discrete event, so \<open>step\<close> runs one handler and commits it.
  \<open>reachable\<close> is the set of states of a session: the initial state, closed under
  steps, where the grid's callback obeys \<open>grid_contract\<close>.  \<open>batch\<close> runs several
  handlers against one render, which is what React would do if they shared a batch.
\<close>

subsection \<open>State\<close>

record app_state =
  items :: "layout_item list"
  columns :: int
  newCounter :: nat
  selectedItemId :: "widget_id option"

definition initialItems :: "layout_item list" where
  "initialItems =
     [\<lparr>item_i = ''a'', item_x = 0, item_y = Row 0, item_w = 6, item_h = 4\<rparr>,
      \<lparr>item_i = ''b'', item_x = 6, item_y = Row 0, item_w = 6, item_h = 4\<rparr>]"

definition initialCols :: int where
  "initialCols = 10"

definition initial_state :: app_state where
  "initial_state =
     \<lparr>items = initialItems, columns = initialCols, newCounter = 0, selectedItemId = None\<rparr>"

subsection \<open>Queued updates and the render that commits them\<close>

record state_updates =
  items_queue :: "layout_item list set_state_action list"
  columns_queue :: "int set_state_action list"
  newCounter_queue :: "nat set_state_action list"
  selectedItemId_queue :: "widget_id option set_state_action list"

definition no_updates :: state_updates where
  "no_updates =
     \<lparr>items_queue = [], columns_queue = [], newCounter_queue = [], selectedItemId_queue = []\<rparr>"

text \<open>Setter calls made one after the other: each hook's queue in call order.\<close>

definition then_updates :: "state_updates \<Rightarrow> state_updates \<Rightarrow> state_updates" where
  "then_updates u v =
     \<lparr>items_queue = items_queue u @ items_queue v,
      columns_queue = columns_queue u @ columns_queue v,
      newCounter_queue = newCounter_queue u @ newCounter_queue v,
      selectedItemId_queue = selectedItemId_queue u @ selectedItemId_queue v\<rparr>"

definition commit :: "app_state \<Rightarrow> state_updates \<Rightarrow> app_state" where
  "commit s u =
     \<lparr>items = process_queue (items s) (items_queue u),
      columns = process_queue (columns s) (columns_queue u),
      newCounter = process_queue (newCounter s) (newCounter_queue u),
      selectedItemId = process_queue (selectedItemId s) (selectedItemId_queue u)\<rparr>"

subsection \<open>Handlers\<close>

definition onLayoutChange :: "layout_item list \<Rightarrow> state_updates" where
  "onLayoutChange layout = no_updates\<lparr>items_queue := [SetValue layout]\<rparr>"

definition new_item_id :: "nat \<Rightarrow> widget_id" where
  "new_item_id n = ''new-'' @ nat_to_js_string n"

text \<open>The item literal of \<open>onAddItem\<close>, built from the render's \<open>items\<close>, \<open>columns\<close>
  and \<open>newCounter\<close>.\<close>

definition onAddItem_item :: "app_state \<Rightarrow> layout_item" where
  "onAddItem_item s =
     \<lparr>item_i = new_item_id (newCounter s),
      item_x = js_rem (int (length (items s)) * 2) (columns s),
      item_y = Infinity, item_w = 2, item_h = 2\<rparr>"

definition onAddItem :: "app_state \<Rightarrow> state_updates" where
  "onAddItem s =
     no_updates\<lparr>newCounter_queue := [SetValue (newCounter s + 1)],
                items_queue := [SetValue (items s @ [onAddItem_item s])]\<rparr>"

definition onRemoveItem :: "widget_id \<Rightarrow> state_updates" where
  "onRemoveItem itemId =
     no_updates\<lparr>items_queue := [Updater (filter (\<lambda>item. item_i item \<noteq> itemId))]\<rparr>"

definition handleSelectWidget :: "widget_id \<Rightarrow> state_updates" where
  "handleSelectWidget itemId =
     no_updates\<lparr>selectedItemId_queue :=
       [Updater (\<lambda>prevSelectedId. if prevSelectedId = Some itemId then None else Some itemId)]\<rparr>"

definition handleColumnsChange :: "string \<Rightarrow> state_updates" where
  "handleColumnsChange value =
     (case parseInt value 10 of
        None \<Rightarrow> no_updates
      | Some newCols \<Rightarrow>
          if 0 < newCols then no_updates\<lparr>columns_queue := [SetValue newCols]\<rparr> else no_updates)"

text \<open>The \<open>onClick\<close> of "Remove Selected": \<open>if (selectedItemId)\<close> is JavaScript
  truthiness, so an empty id counts as no selection.\<close>

definition removeSelected_onClick :: "app_state \<Rightarrow> state_updates" where
  "removeSelected_onClick s =
     (case selectedItemId s of
        None \<Rightarrow> no_updates
      | Some sid \<Rightarrow>
          if js_truthy (Some sid)
          then then_updates (onRemoveItem sid) (no_updates\<lparr>selectedItemId_queue := [SetValue None]\<rparr>)
          else no_updates)"

definition removeSelected_disabled :: "app_state \<Rightarrow> bool" where
  "removeSelected_disabled s \<longleftrightarrow> \<not> js_truthy (selectedItemId s)"

subsection \<open>Events\<close>

text \<open>\<open>ClickWidget k\<close> is a click on the \<open>k\<close>-th rendered widget; a disabled button
  receives no click.\<close>

datatype event =
    LayoutChange "layout_item list"
  | AddWidget
  | ClickWidget nat
  | ColumnsInput string
  | RemoveSelected

fun handler :: "app_state \<Rightarrow> event \<Rightarrow> state_updates" where
  "handler s (LayoutChange layout) = onLayoutChange layout"
| "handler s AddWidget = onAddItem s"
| "handler s (ClickWidget k) =
     (if k < length (items s) then handleSelectWidget (item_i (items s ! k)) else no_updates)"
| "handler s (ColumnsInput value) = handleColumnsChange value"
| "handler s RemoveSelected =
     (if removeSelected_disabled s then no_updates else removeSelected_onClick s)"

definition step :: "app_state \<Rightarrow> event \<Rightarrow> app_state" where
  "step s e = commit s (handler s e)"

fun run :: "app_state \<Rightarrow> event list \<Rightarrow> app_state" where
  "run s [] = s"
| "run s (e # es) = run (step s e) es"

definition batch :: "app_state \<Rightarrow> event list \<Rightarrow> app_state" where
  "batch s es = commit s (foldr then_updates (map (handler s) es) no_updates)"

text \<open>The ids \<open>onAddItem\<close> hands out along a run, in order.\<close>

fun created_ids :: "app_state \<Rightarrow> event list \<Rightarrow> widget_id list" where
  "created_ids s [] = []"
| "created_ids s (e # es) =
     (case e of AddWidget \<Rightarrow> [item_i (onAddItem_item s)] | _ \<Rightarrow> []) @ created_ids (step s e) es"

definition count_adds :: "event list \<Rightarrow> nat" where
  "count_adds es = length (filter (\<lambda>e. e = AddWidget) es)"

text \<open>A user script that empties the grid: deselect by removing, then select and remove
  the first widget \<open>n\<close> times.\<close>

definition clear_all_events :: "nat \<Rightarrow> event list" where
  "clear_all_events n = RemoveSelected # concat (replicate n [ClickWidget 0, RemoveSelected])"

text \<open>The grid's callback is an event of the environment; it obeys the renderer's
  contract.  Every user input is possible in every state.\<close>

fun env_ok :: "app_state \<Rightarrow> event \<Rightarrow> bool" where
  "env_ok s (LayoutChange layout) = grid_contract (columns s) (items s) layout"
| "env_ok s _ = True"

fun env_ok_run :: "app_state \<Rightarrow> event list \<Rightarrow> bool" where
  "env_ok_run s [] = True"
| "env_ok_run s (e # es) = (env_ok s e \<and> env_ok_run (step s e) es)"

inductive reachable :: "app_state \<Rightarrow> bool" where
  initial: "reachable initial_state"
| event: "reachable s \<Longrightarrow> env_ok s e \<Longrightarrow> reachable (step s e)"

subsection \<open>The invariant\<close>

definition item_ids :: "app_state \<Rightarrow> widget_id list" where
  "item_ids s = map item_i (items s)"

text \<open>The ids a session can have handed out after \<open>n\<close> additions.\<close>

definition issued_ids :: "nat \<Rightarrow> widget_id list" where
  "issued_ids n = map item_i initialItems @ map new_item_id [0..<n]"

definition app_inv :: "app_state \<Rightarrow> bool" where
  "app_inv s \<longleftrightarrow>
     0 < columns s \<and> distinct (item_ids s) \<and>
     set (item_ids s) \<subseteq> set (issued_ids (newCounter s)) \<and>
     set_option (selectedItemId s) \<subseteq> set (item_ids s)"

subsection \<open>Each handler after its render\<close>

lemma commit_no_updates [simp]: "commit s no_updates = s"
  by (simp add: commit_def no_updates_def)

lemma commit_then_updates: "commit s (then_updates u v) = commit (commit s u) v"
  by (simp add: commit_def then_updates_def)

lemma commit_onLayoutChange [handler_simps]:
  "commit s (onLayoutChange layout) = s\<lparr>items := layout\<rparr>"
  by (simp add: commit_def onLayoutChange_def no_updates_def)

lemma commit_onAddItem [handler_simps]:
  "commit t (onAddItem s) =
     t\<lparr>items := items s @ [onAddItem_item s], newCounter := Suc (newCounter s)\<rparr>"
  by (simp add: commit_def onAddItem_def no_updates_def)

lemma commit_onRemoveItem [handler_simps]:
  "commit s (onRemoveItem k) = s\<lparr>items := filter (\<lambda>item. item_i item \<noteq> k) (items s)\<rparr>"
  by (simp add: commit_def onRemoveItem_def no_updates_def)

lemma commit_handleSelectWidget [handler_simps]:
  "commit s (handleSelectWidget k) =
     s\<lparr>selectedItemId := (if selectedItemId s = Some k then None else Some k)\<rparr>"
  by (simp add: commit_def handleSelectWidget_def no_updates_def)

lemma commit_handleColumnsChange [handler_simps]:
  "commit s (handleColumnsChange v) =
     s\<lparr>columns := (case parseInt v 10 of
                     None \<Rightarrow> columns s
                   | Some n \<Rightarrow> if 0 < n then n else columns s)\<rparr>"
  by (simp add: commit_def handleColumnsChange_def no_updates_def split: option.split)

lemma commit_removeSelected_onClick [handler_simps]:
  "commit s (removeSelected_onClick s) =
     (case selectedItemId s of
        None \<Rightarrow> s
      | Some sid \<Rightarrow>
          if sid = [] then s
          else s\<lparr>items := filter (\<lambda>item. item_i item \<noteq> sid) (items s), selectedItemId := None\<rparr>)"
  by (simp add: removeSelected_onClick_def commit_then_updates handler_simps
      split: option.split) (simp add: commit_def no_updates_def)

lemma step_AddWidget:
  "step s AddWidget = s\<lparr>items := items s @ [onAddItem_item s], newCounter := Suc (newCounter s)\<rparr>"
  by (simp add: step_def handler_simps)

lemma step_RemoveSelected:
  "step s RemoveSelected =
     (case selectedItemId s of
        None \<Rightarrow> s
      | Some sid \<Rightarrow>
          if sid = [] then s
          else s\<lparr>items := filter (\<lambda>item. item_i item \<noteq> sid) (items s), selectedItemId := None\<rparr>)"
  by (auto simp: step_def removeSelected_disabled_def handler_simps split: option.split)

subsection \<open>Ids and the invariant\<close>

lemma new_item_id_inj [simp]: "new_item_id m = new_item_id n \<longleftrightarrow> m = n"
  by (simp add: new_item_id_def nat_to_js_string_inj)

lemma new_item_id_not_initial: "new_item_id n \<notin> set (map item_i initialItems)"
proof -
  have "length (new_item_id n) \<ge> 5"
    using nat_to_js_string_not_Nil [of n] by (cases "nat_to_js_string n") (simp_all add: new_item_id_def)
  then show ?thesis by (auto simp: initialItems_def)
qed

lemma new_item_id_fresh: "new_item_id n \<notin> set (issued_ids n)"
  using new_item_id_not_initial by (auto simp: issued_ids_def)

lemma issued_ids_Suc: "set (issued_ids (Suc n)) = insert (new_item_id n) (set (issued_ids n))"
  by (auto simp: issued_ids_def)

lemma issued_ids_not_empty: "k \<in> set (issued_ids n) \<Longrightarrow> k \<noteq> []"
  by (auto simp: issued_ids_def initialItems_def new_item_id_def)

lemma app_inv_initial: "app_inv initial_state"
  by (simp add: app_inv_def initial_state_def initialCols_def item_ids_def issued_ids_def initialItems_def)

lemma app_inv_step:
  assumes inv: "app_inv s" and ok: "env_ok s e"
  shows "app_inv (step s e)"
proof (cases e)
  case (LayoutChange layout)
  with ok have gc: "grid_contract (columns s) (items s) layout" by simp
  have "item_i ` set layout = item_i ` set (items s)"
    using gc by (rule grid_contract_ids)
  with inv LayoutChange gc show ?thesis
    by (simp add: app_inv_def item_ids_def step_def handler_simps grid_contract_distinct)
next
  case AddWidget
  have "new_item_id (newCounter s) \<notin> set (item_ids s)"
    using inv new_item_id_fresh by (auto simp: app_inv_def)
  with inv AddWidget show ?thesis
    by (auto simp: app_inv_def item_ids_def step_AddWidget onAddItem_item_def issued_ids_Suc)
next
  case (ClickWidget k)
  with inv show ?thesis
    by (auto simp: app_inv_def item_ids_def step_def handler_simps)
next
  case (ColumnsInput v)
  with inv show ?thesis
    by (auto simp: app_inv_def item_ids_def step_def handler_simps split: option.split)
next
  case RemoveSelected
  with inv show ?thesis
    by (auto simp: app_inv_def item_ids_def step_RemoveSelected split: option.split)
qed

lemma reachable_app_inv: "reachable s \<Longrightarrow> app_inv s"
proof (induction rule: reachable.induct)
  case initial
  show ?case by (rule app_inv_initial)
next
  case (event s e)
  from event.IH event.hyps(2) show ?case by (rule app_inv_step)
qed
lemma step_newCounter:
  "newCounter (step s e) = (if e = AddWidget then Suc (newCounter s) else newCounter s)"
  by (cases e) (auto simp: step_def handler_simps split: option.split)

lemma step_ColumnsInput:
  "step s (ColumnsInput v) =
     (case parseInt v 10 of None \<Rightarrow> s | Some n \<Rightarrow> if 0 < n then s\<lparr>columns := n\<rparr> else s)"
  by (simp add: step_def handler_simps split: option.split)

lemma created_ids_from:
  "created_ids s es = map new_item_id [newCounter s..<newCounter s + count_adds es] \<and>
   newCounter (run s es) = newCounter s + count_adds es"
proof (induction es arbitrary: s)
  case Nil
  then show ?case by (simp add: count_adds_def)
next
  case (Cons e es)
  show ?case
  proof (cases "e = AddWidget")
    case True
    with Cons.IH [of "step s e"] show ?thesis
      by (simp add: count_adds_def step_newCounter onAddItem_item_def upt_rec)
  next
    case False
    with Cons.IH [of "step s e"] show ?thesis
      by (cases e) (simp_all add: count_adds_def step_newCounter)
  qed
qed

lemma distinct_new_item_ids: "distinct (map new_item_id [a..<b])"
  by (simp add: distinct_map inj_on_def)

lemma reachable_run:
  "reachable s \<Longrightarrow> list_all (\<lambda>e. \<forall>L. e \<noteq> LayoutChange L) es \<Longrightarrow> reachable (run s es)"
proof (induction es arbitrary: s)
  case (Cons e es)
  then have "env_ok s e" by (cases e) auto
  with Cons show ?case by (auto intro: reachable.event)
qed simp

lemma reachable_selected_issued:
  "reachable s \<Longrightarrow> selectedItemId s = Some k \<Longrightarrow> k \<in> set (issued_ids (newCounter s))"
  using reachable_app_inv by (fastforce simp: app_inv_def item_ids_def)

lemma app_inv_disabled_iff:
  assumes "app_inv s"
  shows "removeSelected_disabled s \<longleftrightarrow> selectedItemId s = None"
proof (cases "selectedItemId s")
  case (Some k)
  with assms have "k \<in> set (issued_ids (newCounter s))"
    by (auto simp: app_inv_def item_ids_def)
  with Some show ?thesis
    by (auto simp: removeSelected_disabled_def dest: issued_ids_not_empty)
qed (simp add: removeSelected_disabled_def)

lemma step_ClickWidget:
  "k < length (items s) \<Longrightarrow>
     step s (ClickWidget k) =
       s\<lparr>selectedItemId := (if selectedItemId s = Some (item_i (items s ! k)) then None
                            else Some (item_i (items s ! k)))\<rparr>"
  by (simp add: step_def handler_simps)

lemma js_rem_nonneg: "0 \<le> n \<Longrightarrow> 0 < d \<Longrightarrow> js_rem n d = n mod d"
  by (cases "n = 0") (simp_all add: js_rem_def)

lemmas parseInt_eval = parseInt_def js_whitespace_def char_digit_value_def digits_value_def

lemma app_inv_selected_not_empty:
  "app_inv s \<Longrightarrow> selectedItemId s = Some k \<Longrightarrow> k \<noteq> []"
  by (auto simp: app_inv_def item_ids_def dest: issued_ids_not_empty)

lemma items_well_formed_step:
  assumes inv: "app_inv s" and wf: "list_all item_well_formed (items s)" and ok: "env_ok s e"
  shows "list_all item_well_formed (items (step s e))"
proof (cases e)
  case (LayoutChange layout)
  with ok show ?thesis
    by (simp add: step_def handler_simps grid_contract_well_formed)
next
  case AddWidget
  from inv have "0 < columns s" by (simp add: app_inv_def)
  then have "item_well_formed (onAddItem_item s)"
    by (simp add: item_well_formed_def onAddItem_item_def js_rem_nonneg)
  with wf AddWidget show ?thesis by (simp add: step_AddWidget)
next
  case RemoveSelected
  with wf show ?thesis
    by (auto simp: step_RemoveSelected list_all_iff split: option.split)
qed (use wf in \<open>auto simp: step_def handler_simps split: option.split\<close>)

lemma app_inv_run:
  "app_inv s \<Longrightarrow> env_ok_run s es \<Longrightarrow> app_inv (run s es)"
  by (induction es arbitrary: s) (auto intro: app_inv_step)

lemma env_ok_run_user:
  "list_all (\<lambda>e. \<forall>L. e \<noteq> LayoutChange L) es \<Longrightarrow> env_ok_run s es"
proof (induction es arbitrary: s)
  case (Cons e es)
  then show ?case by (cases e) auto
qed simp

lemma clear_loop:
  "app_inv s \<Longrightarrow> selectedItemId s = None \<Longrightarrow> length (items s) \<le> n \<Longrightarrow>
     items (run s (concat (replicate n [ClickWidget 0, RemoveSelected]))) = [] \<and>
     selectedItemId (run s (concat (replicate n [ClickWidget 0, RemoveSelected]))) = None"
proof (induction n arbitrary: s)
  case 0
  then show ?case by simp
next
  case (Suc n)
  show ?case
  proof (cases "items s")
    case Nil
    with Suc.prems have "run s [ClickWidget 0, RemoveSelected] = s"
      by (simp add: step_def handler_simps removeSelected_disabled_def)
    with Suc.IH [of s] Suc.prems Nil show ?thesis by simp
  next
    case (Cons it rest)
    define s1 where "s1 = run s [ClickWidget 0, RemoveSelected]"
    have k: "item_i it \<in> set (issued_ids (newCounter s))"
      using Suc.prems(1) Cons by (auto simp: app_inv_def item_ids_def)
    then have ne: "item_i it \<noteq> []" by (rule issued_ids_not_empty)
    have d: "item_i it \<notin> set (map item_i rest)"
      using Suc.prems(1) Cons by (simp add: app_inv_def item_ids_def)
    have s1: "s1 = s\<lparr>items := rest\<rparr>"
      using Suc.prems(2) Cons ne d
      by (simp add: s1_def step_ClickWidget step_RemoveSelected filter_key_absent)
    have "app_inv s1"
      unfolding s1_def by (rule app_inv_run [OF Suc.prems(1)]) simp
    moreover have "selectedItemId s1 = None" "length (items s1) \<le> n"
      using s1 Suc.prems(2,3) Cons by simp_all
    ultimately have "items (run s1 (concat (replicate n [ClickWidget 0, RemoveSelected]))) = [] \<and>
        selectedItemId (run s1 (concat (replicate n [ClickWidget 0, RemoveSelected]))) = None"
      by (rule Suc.IH)
    then show ?thesis by (simp add: s1_def)
  qed
qed

lemma commit_foldr_then:
  "commit s (foldr then_updates us no_updates) = foldl commit s us"
  by (induction us arbitrary: s) (simp_all add: commit_then_updates)

lemma items_step_ClickWidget [simp]: "items (step s (ClickWidget k)) = items s"
  by (simp add: step_def handler_simps)

lemma batch_clicks_aux:
  "items t = items s \<Longrightarrow>
     foldl commit t (map (handler s) (map ClickWidget ks)) = run t (map ClickWidget ks)"
proof (induction ks arbitrary: t)
  case (Cons k ks)
  have "handler s (ClickWidget k) = handler t (ClickWidget k)"
    using Cons.prems by simp
  then have "commit t (handler s (ClickWidget k)) = step t (ClickWidget k)"
    by (simp add: step_def)
  with Cons.IH [of "step t (ClickWidget k)"] Cons.prems show ?case by simp
qed simp

subsection \<open>Properties of a session\<close>

text \<open>
  C1: in every reachable state the column count is positive, the widget ids are
  pairwise distinct and were all handed out by the session (the seed ids or
  \<open>new-k\<close> for a \<open>k\<close> below the counter), and a selected id names a widget on the grid.
\<close>

theorem reachable_state_safe:
  "reachable s \<Longrightarrow>
     0 < columns s \<and> distinct (map item_i (items s)) \<and>
     set (map item_i (items s)) \<subseteq> set (issued_ids (newCounter s)) \<and>
     set_option (selectedItemId s) \<subseteq> set (map item_i (items s))"
  using reachable_app_inv by (simp add: app_inv_def item_ids_def)

theorem reachable_state_safe_witness:
  "reachable (run initial_state [AddWidget, ClickWidget 2]) \<and>
   distinct (map item_i (items (run initial_state [AddWidget, ClickWidget 2]))) \<and>
   selectedItemId (run initial_state [AddWidget, ClickWidget 2]) = Some ''new-0''"
proof -
  have r: "reachable (run initial_state [AddWidget, ClickWidget 2])"
    by (rule reachable_run) (simp_all add: reachable.initial)
  have "selectedItemId (run initial_state [AddWidget, ClickWidget 2]) = Some ''new-0''"
    by code_simp
  with r reachable_state_safe [OF r] show ?thesis by simp
qed

text \<open>
  C2: along any sequence of events from the initial state, removals and layout
  changes included, the ids that "Add Widget" creates are \<open>new-0\<close>, \<open>new-1\<close>, ... in
  order, pairwise distinct, and the counter ends at the number of additions.
\<close>

theorem created_ids_sequence:
  "created_ids initial_state es = map new_item_id [0..<count_adds es] \<and>
   distinct (created_ids initial_state es) \<and>
   newCounter (run initial_state es) = count_adds es"
  using created_ids_from [of initial_state es] distinct_new_item_ids
  by (simp add: initial_state_def)

text \<open>
  C3: in a reachable state with widget \<open>k\<close> selected, "Remove Selected"
  removes every
  item with id \<open>k\<close> from the grid, clears the selection and changes nothing else.
\<close>

theorem remove_selected_clears:
  assumes "reachable s" and "selectedItemId s = Some k"
  shows "step s RemoveSelected =
           s\<lparr>items := filter (\<lambda>item. item_i item \<noteq> k) (items s), selectedItemId := None\<rparr> \<and>
         k \<notin> set (map item_i (items (step s RemoveSelected)))"
proof -
  have "k \<noteq> []"
    using reachable_selected_issued [OF assms] by (rule issued_ids_not_empty)
  with assms(2) show ?thesis by (auto simp: step_RemoveSelected)
qed

theorem remove_selected_clears_witness:
  "reachable (run initial_state [ClickWidget 0]) \<and>
   selectedItemId (run initial_state [ClickWidget 0]) = Some ''a'' \<and>
   items (step (run initial_state [ClickWidget 0]) RemoveSelected) = tl initialItems \<and>
   selectedItemId (step (run initial_state [ClickWidget 0]) RemoveSelected) = None"
proof -
  have r: "reachable (run initial_state [ClickWidget 0])"
    by (rule reachable_run) (simp_all add: reachable.initial)
  have sel: "selectedItemId (run initial_state [ClickWidget 0]) = Some ''a''"
    by code_simp
  have "items (run initial_state [ClickWidget 0]) = initialItems"
    by code_simp
  with r sel remove_selected_clears [OF r sel] show ?thesis
    by (simp add: initialItems_def)
qed

text \<open>
  C4: the column field discards the inputs \<open>0\<close>, \<open>-3\<close>,
  \<open>abc\<close> and the empty
  string without changing any state, and \<open>5\<close> sets the column count to 5.
\<close>

theorem columns_input_validation:
  "step s (ColumnsInput ''0'') = s \<and> step s (ColumnsInput ''-3'') = s \<and>
   step s (ColumnsInput ''abc'') = s \<and> step s (ColumnsInput '''') = s \<and>
   step s (ColumnsInput ''5'') = s\<lparr>columns := 5\<rparr>"
  by (simp add: step_ColumnsInput parseInt_eval)

text \<open>
  C5: in every reachable state the "Remove Selected" button is disabled exactly when
  nothing is selected (the code tests truthiness; no reachable id is empty).
\<close>

theorem remove_button_enabled_iff_selection:
  "reachable s \<Longrightarrow> removeSelected_disabled s \<longleftrightarrow> selectedItemId s = None"
  using reachable_app_inv app_inv_disabled_iff by blast

theorem remove_button_enabled_iff_selection_witness:
  "reachable (run initial_state [ClickWidget 0]) \<and>
   \<not> removeSelected_disabled (run initial_state [ClickWidget 0])"
proof -
  have r: "reachable (run initial_state [ClickWidget 0])"
    by (rule reachable_run) (simp_all add: reachable.initial)
  have "selectedItemId (run initial_state [ClickWidget 0]) \<noteq> None"
    by code_simp
  with r remove_button_enabled_iff_selection [OF r] show ?thesis by simp
qed

text \<open>
  C7: with a positive column count, "Add Widget" places the new item in column
  \<open>(2 * length items) mod columns\<close>, inside \<open>[0, columns)\<close>, on the row sentinel
  \<open>Infinity\<close>.
\<close>

theorem onAddItem_placement:
  "0 < columns s \<Longrightarrow>
     item_x (onAddItem_item s) = (2 * int (length (items s))) mod columns s \<and>
     0 \<le> item_x (onAddItem_item s) \<and> item_x (onAddItem_item s) < columns s \<and>
     item_y (onAddItem_item s) = Infinity"
  by (simp add: onAddItem_item_def js_rem_nonneg mult.commute)

theorem onAddItem_placement_witness:
  "0 < columns initial_state \<and> item_x (onAddItem_item initial_state) = 4 \<and>
   item_x (onAddItem_item initial_state) < columns initial_state"
proof -
  have c: "0 < columns initial_state" by (simp add: initial_state_def initialCols_def)
  from onAddItem_placement [OF c] c show ?thesis
    by (simp add: initial_state_def initialItems_def initialCols_def)
qed

text \<open>
  C8: removing a widget by id (spec section 4.1, \<open>removeItem\<close>) removes exactly that
  id from the grid and keeps every other item; removing an id that is not on the grid
  changes nothing, so a second removal of the same id is a no-op.
\<close>

theorem onRemoveItem_contract:
  "item_i ` set (items (commit s (onRemoveItem k))) = item_i ` set (items s) - {k} \<and>
   (\<forall>it \<in> set (items s). item_i it \<noteq> k \<longrightarrow> it \<in> set (items (commit s (onRemoveItem k)))) \<and>
   (k \<notin> item_i ` set (items s) \<longrightarrow> commit s (onRemoveItem k) = s) \<and>
   commit (commit s (onRemoveItem k)) (onRemoveItem k) = commit s (onRemoveItem k)"
proof -
  have "k \<notin> item_i ` set (items s) \<Longrightarrow> filter (\<lambda>item. item_i item \<noteq> k) (items s) = items s"
    by (auto simp: filter_id_conv)
  then show ?thesis by (auto simp: handler_simps)
qed

theorem onRemoveItem_contract_witness:
  "''z'' \<notin> item_i ` set (items initial_state) \<and>
   commit initial_state (onRemoveItem ''z'') = initial_state \<and>
   item_i ` set (items (commit initial_state (onRemoveItem ''a''))) = {''b''}"
proof -
  have ids: "item_i ` set (items initial_state) = {''a'', ''b''}"
    by (simp add: initial_state_def initialItems_def)
  with onRemoveItem_contract [of initial_state "''z''"] onRemoveItem_contract [of initial_state "''a''"]
  show ?thesis by auto
qed

text \<open>
  C9: a click on a widget toggles the selection (spec section 4.2, \<open>toggleSelect\<close>):
  it selects the widget when it is not selected and clears the selection when it is,
  and changes nothing else; so two clicks restore the selection, to nothing when the
  widget was not selected before and to the widget itself when it was.
\<close>

theorem click_toggles_selection:
  "k < length (items s) \<Longrightarrow>
     step s (ClickWidget k) =
       s\<lparr>selectedItemId := (if selectedItemId s = Some (item_i (items s ! k)) then None
                            else Some (item_i (items s ! k)))\<rparr> \<and>
     run s [ClickWidget k, ClickWidget k] =
       (if selectedItemId s = Some (item_i (items s ! k)) then s else s\<lparr>selectedItemId := None\<rparr>)"
  by (simp add: step_ClickWidget)

theorem click_toggles_selection_witness:
  "0 < length (items initial_state) \<and>
   selectedItemId (step initial_state (ClickWidget 0)) = Some ''a'' \<and>
   run initial_state [ClickWidget 0, ClickWidget 0] = initial_state"
proof -
  have k: "0 < length (items initial_state)" by (simp add: initial_state_def initialItems_def)
  have sel: "selectedItemId initial_state = None" by (simp add: initial_state_def)
  have a: "item_i (items initial_state ! 0) = ''a''" by (simp add: initial_state_def initialItems_def)
  note t = click_toggles_selection [OF k]
  have "selectedItemId (step initial_state (ClickWidget 0)) = Some ''a''"
    using conjunct1 [OF t] sel a by simp
  moreover have "run initial_state [ClickWidget 0, ClickWidget 0] = initial_state"
    using conjunct2 [OF t] sel by simp
  ultimately show ?thesis using k by blast
qed

text \<open>
  C10: \<open>onAddItem\<close> writes values computed from its closure, not updaters:
  two additions handled against the same render commit only one item and count once,
  while two additions in separate renders add two items.
\<close>

theorem batched_adds_lose_one:
  "batch s [AddWidget, AddWidget] = step s AddWidget \<and>
   length (items (run s [AddWidget, AddWidget])) = length (items s) + 2 \<and>
   length (items (batch s [AddWidget, AddWidget])) = length (items s) + 1"
  by (simp add: batch_def step_def commit_then_updates handler_simps)

text \<open>
  The seed layout is laid out for 12 columns: item \<open>b\<close> (x 6, width 6) reaches
  column 12 although the grid starts with 10 columns, so it is not inside the grid
  (item \<open>a\<close> is).
\<close>

lemma initial_layout_exceeds_columns:
  "item_x (initialItems ! 1) + item_w (initialItems ! 1) = 12 \<and>
   \<not> item_in_bounds initialCols (initialItems ! 1) \<and>
   item_in_bounds initialCols (initialItems ! 0)"
  by (simp add: initialItems_def initialCols_def item_in_bounds_def)

text \<open>
  "Add Widget" does not check the right edge: after the input 5 the new item of width 2
  starts at column 4 and reaches past the 5 columns.
\<close>

lemma added_item_can_exceed_columns:
  "reachable (run initial_state [ColumnsInput ''5'']) \<and>
   columns (run initial_state [ColumnsInput ''5'']) = 5 \<and>
   item_x (onAddItem_item (run initial_state [ColumnsInput ''5''])) = 4 \<and>
   columns (run initial_state [ColumnsInput ''5'']) <
     item_x (onAddItem_item (run initial_state [ColumnsInput ''5''])) +
     item_w (onAddItem_item (run initial_state [ColumnsInput ''5'']))"
proof -
  have r: "reachable (run initial_state [ColumnsInput ''5''])"
    by (rule reachable_run) (simp_all add: reachable.initial)
  have "run initial_state [ColumnsInput ''5''] = initial_state\<lparr>columns := 5\<rparr>"
    by (simp add: step_ColumnsInput parseInt_eval)
  with r show ?thesis
    by (simp add: onAddItem_item_def initial_state_def initialItems_def js_rem_def)
qed

text \<open>
  C13: every item of every reachable state fits the data model of spec section 3: a
  non-negative column, width and height of at least one cell, and a non-negative row
  or the \<open>Infinity\<close> sentinel of a widget not yet placed by the grid.
\<close>

theorem reachable_items_well_formed:
  "reachable s \<Longrightarrow> list_all item_well_formed (items s)"
proof (induction rule: reachable.induct)
  case initial
  show ?case by (simp add: initial_state_def initialItems_def item_well_formed_def)
next
  case (event s e)
  then show ?case using reachable_app_inv items_well_formed_step by blast
qed

theorem reachable_items_well_formed_witness:
  "reachable (run initial_state [AddWidget]) \<and>
   list_all item_well_formed (items (run initial_state [AddWidget])) \<and>
   length (items (run initial_state [AddWidget])) = 3"
proof -
  have r: "reachable (run initial_state [AddWidget])"
    by (rule reachable_run) (simp_all add: reachable.initial)
  have "length (items (run initial_state [AddWidget])) = 3"
    by code_simp
  with r reachable_items_well_formed [OF r] show ?thesis by simp
qed

text \<open>
  C14: from every reachable state the user can empty the grid: "Remove Selected",
  then "click the first widget, Remove Selected" once per widget, reaches a reachable
  state with no items and no selection.
\<close>

theorem empty_grid_reachable:
  assumes "reachable s"
  shows "reachable (run s (clear_all_events (length (items s)))) \<and>
         items (run s (clear_all_events (length (items s)))) = [] \<and>
         selectedItemId (run s (clear_all_events (length (items s)))) = None"
proof -
  have inv: "app_inv s" using assms by (rule reachable_app_inv)
  define s0 where "s0 = step s RemoveSelected"
  have inv0: "app_inv s0" unfolding s0_def using inv by (rule app_inv_step) simp
  have sel0: "selectedItemId s0 = None" and len0: "length (items s0) \<le> length (items s)"
    using inv by (auto simp: s0_def step_RemoveSelected dest: app_inv_selected_not_empty
        split: option.split)
  have "reachable (run s (clear_all_events (length (items s))))"
    using assms by (rule reachable_run) (auto simp: clear_all_events_def list_all_iff set_replicate_conv_if)
  with clear_loop [OF inv0 sel0 len0] show ?thesis
    by (simp add: clear_all_events_def s0_def)
qed

theorem empty_grid_reachable_witness:
  "reachable (run initial_state [AddWidget, ClickWidget 1]) \<and>
   items (run (run initial_state [AddWidget, ClickWidget 1])
     (clear_all_events (length (items (run initial_state [AddWidget, ClickWidget 1]))))) = []"
proof -
  have r: "reachable (run initial_state [AddWidget, ClickWidget 1])"
    by (rule reachable_run) (simp_all add: reachable.initial)
  from empty_grid_reachable [OF r] r show ?thesis by simp
qed

text \<open>
  C15: \<open>handleSelectWidget\<close> queues an updater, so clicks handled against one render
  give the same state as the same clicks handled one render at a time (contrast C10).
\<close>

theorem batched_clicks_sequential:
  "batch s (map ClickWidget ks) = run s (map ClickWidget ks)"
  using batch_clicks_aux [of s s ks] by (simp add: batch_def commit_foldr_then comp_def)

end
