(* ===== verification/View.thy ===== *)
theory View
  imports Dashboard
begin

text \<open>
  What a render of \<open>App\<close> shows (the JSX of \<open>src/src/App.tsx\<close>, lines 69-155), as
  data: the props handed to \<open>GridLayout\<close>, one \<open>widget_view\<close> per item (its React
  key, its \<open>data-grid\<close> entry, whether it has the blue selection border and its
  label), and the state of the toolbar.  The lemmas relate the view to the state: in a
  reachable state the widget keys are unique and exactly one widget is highlighted when
  something is selected.
\<close>

definition rowHeight :: nat where
  "rowHeight = 30"

definition gridWidth :: nat where
  "gridWidth = 1200"

datatype compact_type = CompactVertical | CompactHorizontal

record grid_props =
  gp_layout :: "layout_item list"
  gp_cols :: int
  gp_rowHeight :: nat
  gp_width :: nat
  gp_compactType :: "compact_type option"
  gp_isBounded :: bool
  gp_isDraggable :: bool
  gp_isResizable :: bool

record widget_view =
  wv_key :: widget_id
  wv_data_grid :: layout_item
  wv_highlighted :: bool
  wv_label :: string

record toolbar_view =
  tb_columns_label :: string
  tb_columns_value :: int
  tb_columns_min :: int
  tb_remove_disabled :: bool

record app_view =
  av_heading :: string
  av_toolbar :: toolbar_view
  av_grid :: grid_props
  av_widgets :: "widget_view list"

definition render_grid_props :: "app_state \<Rightarrow> grid_props" where
  "render_grid_props s =
     \<lparr>gp_layout = items s, gp_cols = columns s, gp_rowHeight = rowHeight, gp_width = gridWidth,
      gp_compactType = Some CompactVertical, gp_isBounded = True, gp_isDraggable = True,
      gp_isResizable = True\<rparr>"

definition render_widget :: "app_state \<Rightarrow> layout_item \<Rightarrow> widget_view" where
  "render_widget s item =
     \<lparr>wv_key = item_i item, wv_data_grid = item,
      wv_highlighted = (selectedItemId s = Some (item_i item)),
      wv_label = ''Widget '' @ js_toUpperCase (item_i item)\<rparr>"

definition render_widgets :: "app_state \<Rightarrow> widget_view list" where
  "render_widgets s = map (render_widget s) (items s)"

definition render_toolbar :: "app_state \<Rightarrow> toolbar_view" where
  "render_toolbar s =
     \<lparr>tb_columns_label = ''Columns'', tb_columns_value = columns s, tb_columns_min = 1,
      tb_remove_disabled = removeSelected_disabled s\<rparr>"

text \<open>The page: the heading, the toolbar, and the grid with one child per item.\<close>

definition render_app :: "app_state \<Rightarrow> app_view" where
  "render_app s =
     \<lparr>av_heading = ''Configurable Dashboard'', av_toolbar = render_toolbar s,
      av_grid = render_grid_props s, av_widgets = render_widgets s\<rparr>"

lemma length_render_widgets [simp]: "length (render_widgets s) = length (items s)"
  by (simp add: render_widgets_def)

lemma render_widgets_keys: "map wv_key (render_widgets s) = map item_i (items s)"
  by (simp add: render_widgets_def render_widget_def)

lemma highlighted_widgets:
  "filter wv_highlighted (render_widgets s) =
     map (render_widget s) (filter (\<lambda>item. selectedItemId s = Some (item_i item)) (items s))"
  by (simp add: render_widgets_def render_widget_def filter_map comp_def)

lemma distinct_count_key:
  "distinct (map key xs) \<Longrightarrow>
     length (filter (\<lambda>x. key x = k) xs) = (if k \<in> set (map key xs) then 1 else 0)"
  by (induction xs) (auto simp: filter_empty_conv)

lemma count_highlighted:
  assumes "distinct (map item_i (items s))"
  shows "length (filter wv_highlighted (render_widgets s)) =
           (case selectedItemId s of
              None \<Rightarrow> 0
            | Some k \<Rightarrow> if k \<in> set (map item_i (items s)) then 1 else 0)"
proof (cases "selectedItemId s")
  case None
  then show ?thesis by (simp add: highlighted_widgets)
next
  case (Some k)
  have "filter (\<lambda>item. selectedItemId s = Some (item_i item)) (items s) =
        filter (\<lambda>item. item_i item = k) (items s)"
    using Some by (auto intro: filter_cong)
  with Some distinct_count_key [OF assms, of k] show ?thesis
    by (simp add: highlighted_widgets)
qed

text \<open>
  C11: every render of a reachable state gives the widgets pairwise distinct React
  keys, highlights exactly one widget when something is selected and none otherwise,
  and disables "Remove Selected" exactly when no widget is highlighted.
\<close>

theorem reachable_render_consistent:
  assumes "reachable s"
  shows "distinct (map wv_key (render_widgets s)) \<and>
         length (filter wv_highlighted (render_widgets s)) =
           (if selectedItemId s = None then 0 else 1) \<and>
         tb_remove_disabled (render_toolbar s) =
           (filter wv_highlighted (render_widgets s) = [])"
proof -
  have inv: "app_inv s" using assms by (rule reachable_app_inv)
  then have d: "distinct (map item_i (items s))"
    and sel: "set_option (selectedItemId s) \<subseteq> set (map item_i (items s))"
    by (simp_all add: app_inv_def item_ids_def)
  have count: "length (filter wv_highlighted (render_widgets s)) =
                 (if selectedItemId s = None then 0 else 1)"
    using count_highlighted [OF d] sel by (auto split: option.split)
  moreover have "tb_remove_disabled (render_toolbar s) = (selectedItemId s = None)"
    using app_inv_disabled_iff [OF inv] by (simp add: render_toolbar_def)
  ultimately show ?thesis
    using d by (auto simp: render_widgets_keys simp flip: length_0_conv)
qed

theorem reachable_render_consistent_witness:
  "reachable (run initial_state [ClickWidget 1]) \<and>
   length (filter wv_highlighted (render_widgets (run initial_state [ClickWidget 1]))) = 1"
proof -
  have r: "reachable (run initial_state [ClickWidget 1])"
    by (rule reachable_run) (simp_all add: reachable.initial)
  have "selectedItemId (run initial_state [ClickWidget 1]) \<noteq> None"
    by code_simp
  with r reachable_render_consistent [OF r] show ?thesis by simp
qed

end
