(* ===== verification/Columns_Field.thy ===== *)
theory Columns_Field
  imports View
begin

text \<open>
  The Columns field of the toolbar (\<open>src/src/App.tsx\<close>, lines 76-86): a controlled
  \<open>TextField\<close> of \<open>type="number"\<close> whose \<open>onChange\<close> hands
  \<open>event.target.value\<close> to \<open>handleColumnsChange\<close>.  A number input reports either
  the empty string or a valid floating-point number of the HTML standard (value
  sanitization of \<open>input type=number\<close>): an optional \<open>-\<close>, an integer part and/or a
  fraction \<open>.digits\<close>, and an optional exponent \<open>e\<close>/\<open>E\<close> with an optional sign.
  \<open>number_text\<close> is that syntax, part of the browser and modelled from the HTML
  standard.  The theorem: on every value the field can report, the handler keeps the
  integer part of the mantissa if it is positive and discards the input otherwise,
  whatever the fraction and the exponent say.
\<close>

definition is_ascii_digit :: "char \<Rightarrow> bool" where
  "is_ascii_digit c \<longleftrightarrow> 48 \<le> (of_char c :: nat) \<and> (of_char c :: nat) \<le> 57"

definition ascii_digits :: "string \<Rightarrow> bool" where
  "ascii_digits ds \<longleftrightarrow> ds \<noteq> [] \<and> list_all is_ascii_digit ds"

record number_text =
  nt_neg :: bool
  nt_int :: string
  nt_frac :: "string option"
  nt_exp :: "(char \<times> string \<times> string) option"

definition number_text_valid :: "number_text \<Rightarrow> bool" where
  "number_text_valid t \<longleftrightarrow>
     (nt_int t = [] \<or> ascii_digits (nt_int t)) \<and>
     (case nt_frac t of None \<Rightarrow> nt_int t \<noteq> [] | Some f \<Rightarrow> ascii_digits f) \<and>
     (case nt_exp t of
        None \<Rightarrow> True
      | Some (e, sg, ds) \<Rightarrow> e \<in> {CHR ''e'', CHR ''E''} \<and> sg \<in> {'''', ''-'', ''+''} \<and> ascii_digits ds)"

definition number_text_tail :: "number_text \<Rightarrow> string" where
  "number_text_tail t =
     (case nt_frac t of None \<Rightarrow> '''' | Some f \<Rightarrow> ''.'' @ f) @
     (case nt_exp t of None \<Rightarrow> '''' | Some (e, sg, ds) \<Rightarrow> e # sg @ ds)"

definition number_text_string :: "number_text \<Rightarrow> string" where
  "number_text_string t = (if nt_neg t then ''-'' else '''') @ nt_int t @ number_text_tail t"

subsection \<open>parseInt on the values of a number field\<close>

lemma ascii_digits_decimal:
  "ascii_digits ds \<Longrightarrow> ds \<noteq> [] \<and> (\<forall>c \<in> set ds. char_digit_value c < 10)"
  by (auto simp: ascii_digits_def is_ascii_digit_def list_all_iff char_digit_value_def Let_def)

lemma number_text_tail_stops:
  assumes "number_text_valid t"
  shows "number_text_tail t = [] \<or>
         (10 \<le> char_digit_value (hd (number_text_tail t)) \<and>
          \<not> js_whitespace (hd (number_text_tail t)) \<and>
          hd (number_text_tail t) \<noteq> CHR ''-'' \<and> hd (number_text_tail t) \<noteq> CHR ''+'')"
  using assms
  by (auto simp: number_text_valid_def number_text_tail_def char_digit_value_def js_whitespace_def
      split: option.splits)

lemma parseInt_number_text:
  assumes v: "number_text_valid t"
  shows "parseInt (number_text_string t) 10 =
           (if nt_int t = [] then None
            else Some ((if nt_neg t then -1 else 1) * int (digits_value 10 (nt_int t))))"
proof -
  define sg where "sg = (if nt_neg t then ''-'' else '''')"
  have sg: "sg \<in> {'''', ''-'', ''+''}" by (simp add: sg_def)
  have str: "number_text_string t = sg @ nt_int t @ number_text_tail t"
    by (simp add: number_text_string_def sg_def)
  show ?thesis
  proof (cases "nt_int t = []")
    case True
    with parseInt_no_digits [OF sg] number_text_tail_stops [OF v] show ?thesis
      by (simp add: str)
  next
    case False
    with v have "ascii_digits (nt_int t)" by (simp add: number_text_valid_def)
    note d = ascii_digits_decimal [OF this]
    have stop: "number_text_tail t = [] \<or> 10 \<le> char_digit_value (hd (number_text_tail t))"
      using number_text_tail_stops [OF v] by blast
    have "parseInt (number_text_string t) 10 =
            Some ((if sg = ''-'' then -1 else 1) * int (digits_value 10 (nt_int t)))"
      unfolding str by (rule parseInt_signed_prefix [OF sg conjunct1 [OF d] conjunct2 [OF d] stop])
    with False show ?thesis by (simp add: sg_def)
  qed
qed

subsection \<open>The values the field accepts\<close>

text \<open>
  C21: on every value a number field can report, the handler keeps the integer part of
  the mantissa when it is present and positive and discards the input otherwise: the
  fraction and the exponent are ignored, so \<open>5e-1\<close> (one half) sets 5 columns,
  \<open>1e3\<close> sets 1, and \<open>.5\<close>, \<open>0.9\<close>, \<open>-2\<close> and \<open>-0\<close> change nothing.
\<close>

theorem columns_number_field_values:
  "number_text_valid t \<Longrightarrow>
     step s (ColumnsInput (number_text_string t)) =
       (if nt_int t \<noteq> [] \<and> \<not> nt_neg t \<and> 0 < digits_value 10 (nt_int t)
        then s\<lparr>columns := int (digits_value 10 (nt_int t))\<rparr> else s)"
  by (auto simp: step_ColumnsInput parseInt_number_text)

theorem columns_number_field_values_witness:
  "number_text_valid \<lparr>nt_neg = False, nt_int = ''5'', nt_frac = None, nt_exp = Some (CHR ''e'', ''-'', ''1'')\<rparr> \<and>
   number_text_string \<lparr>nt_neg = False, nt_int = ''5'', nt_frac = None, nt_exp = Some (CHR ''e'', ''-'', ''1'')\<rparr> = ''5e-1'' \<and>
   step initial_state (ColumnsInput ''5e-1'') = initial_state\<lparr>columns := 5\<rparr>"
proof -
  let ?t = "\<lparr>nt_neg = False, nt_int = ''5'', nt_frac = None, nt_exp = Some (CHR ''e'', ''-'', ''1'')\<rparr>"
  have v: "number_text_valid ?t"
    by (simp add: number_text_valid_def ascii_digits_def is_ascii_digit_def)
  have str: "number_text_string ?t = ''5e-1''"
    by (simp add: number_text_string_def number_text_tail_def)
  have "digits_value 10 ''5'' = 5" by code_simp
  with columns_number_field_values [OF v, of initial_state] v str show ?thesis
    by simp
qed

end
