(* ===== verification/Abstract_Spec.thy ===== *)
theory Abstract_Spec
  imports Dashboard
begin

text \<open>
  The dashboard as the spec describes it (sections 3 and 4), without the list: the
  widgets are a finite map from id to layout entry, so order and duplicate ids do not
  exist at this level; "Add Widget" binds the id \<open>new-n\<close> of the counter \<open>n\<close> and
  counts up, "Remove Selected" deletes the selected id and clears the selection, a
  click toggles the selection, the column field applies a positive parse, and the grid
  replaces the whole map.  \<open>abs_state\<close> reads a state of \<open>Dashboard\<close> as such a map
  (\<open>map_of\<close> of the item list, keyed by \<open>i\<close>) and \<open>abs_event\<close> names the abstract
  operation an event performs.  The refinement theorem says that each step of the code
  is the abstract operation on the abstraction, in every reachable state; it needs the
  invariant, since with a duplicate id \<open>map_of\<close> would hide an item.
\<close>

record dashboard_spec =
  widgets :: "widget_id \<rightharpoonup> layout_item"
  spec_columns :: int
  spec_counter :: nat
  spec_selected :: "widget_id option"

datatype spec_event =
    SpecRelayout "widget_id \<rightharpoonup> layout_item"
  | SpecAdd layout_item
  | SpecToggle widget_id
  | SpecSetColumns "int option"
  | SpecRemoveSelected
  | SpecSkip

fun spec_step :: "dashboard_spec \<Rightarrow> spec_event \<Rightarrow> dashboard_spec" where
  "spec_step A (SpecRelayout W) = A\<lparr>widgets := W\<rparr>"
| "spec_step A (SpecAdd it) =
     A\<lparr>widgets := (widgets A)(new_item_id (spec_counter A) \<mapsto> it),
       spec_counter := Suc (spec_counter A)\<rparr>"
| "spec_step A (SpecToggle k) =
     A\<lparr>spec_selected := (if spec_selected A = Some k then None else Some k)\<rparr>"
| "spec_step A (SpecSetColumns n) =
     (case n of Some c \<Rightarrow> if 0 < c then A\<lparr>spec_columns := c\<rparr> else A | None \<Rightarrow> A)"
| "spec_step A SpecRemoveSelected =
     (case spec_selected A of
        None \<Rightarrow> A
      | Some k \<Rightarrow> A\<lparr>widgets := (widgets A)(k := None), spec_selected := None\<rparr>)"
| "spec_step A SpecSkip = A"

definition widget_map :: "layout_item list \<Rightarrow> widget_id \<rightharpoonup> layout_item" where
  "widget_map xs = map_of (map (\<lambda>it. (item_i it, it)) xs)"

definition abs_state :: "app_state \<Rightarrow> dashboard_spec" where
  "abs_state s =
     \<lparr>widgets = widget_map (items s), spec_columns = columns s,
      spec_counter = newCounter s, spec_selected = selectedItemId s\<rparr>"

fun abs_event :: "app_state \<Rightarrow> event \<Rightarrow> spec_event" where
  "abs_event s (LayoutChange layout) = SpecRelayout (widget_map layout)"
| "abs_event s AddWidget = SpecAdd (onAddItem_item s)"
| "abs_event s (ClickWidget k) =
     (if k < length (items s) then SpecToggle (item_i (items s ! k)) else SpecSkip)"
| "abs_event s (ColumnsInput v) = SpecSetColumns (parseInt v 10)"
| "abs_event s RemoveSelected = SpecRemoveSelected"

text \<open>What the abstract state promises: the selection is a key of the map, every key
  was handed out, and the column count is positive.\<close>

definition spec_inv :: "dashboard_spec \<Rightarrow> bool" where
  "spec_inv A \<longleftrightarrow>
     0 < spec_columns A \<and> dom (widgets A) \<subseteq> set (issued_ids (spec_counter A)) \<and>
     set_option (spec_selected A) \<subseteq> dom (widgets A)"

lemma dom_widget_map [simp]: "dom (widget_map xs) = set (map item_i xs)"
  by (simp add: widget_map_def dom_map_of_conv_image_fst image_image)

lemma widget_map_filter:
  "widget_map (filter (\<lambda>it. item_i it \<noteq> k) xs) = (widget_map xs)(k := None)"
  unfolding widget_map_def by (rule map_of_filter_key)

lemma widget_map_append_fresh:
  "item_i it \<notin> set (map item_i xs) \<Longrightarrow> widget_map (xs @ [it]) = (widget_map xs)(item_i it \<mapsto> it)"
  unfolding widget_map_def by (rule map_of_append_fresh)

lemma app_inv_spec_inv: "app_inv s \<Longrightarrow> spec_inv (abs_state s)"
  by (simp add: app_inv_def spec_inv_def abs_state_def item_ids_def)

lemma abs_state_step:
  assumes inv: "app_inv s"
  shows "abs_state (step s e) = spec_step (abs_state s) (abs_event s e)"
proof (cases e)
  case AddWidget
  have "item_i (onAddItem_item s) \<notin> set (map item_i (items s))"
    using inv new_item_id_fresh by (auto simp: app_inv_def item_ids_def onAddItem_item_def)
  with AddWidget show ?thesis
    by (simp add: abs_state_def step_AddWidget widget_map_append_fresh)
      (simp add: onAddItem_item_def)
next
  case RemoveSelected
  show ?thesis
  proof (cases "selectedItemId s")
    case (Some k)
    with inv have "k \<noteq> []"
      by (auto simp: app_inv_def item_ids_def dest: issued_ids_not_empty)
    with Some RemoveSelected show ?thesis
      by (simp add: abs_state_def step_RemoveSelected widget_map_filter)
  qed (simp add: RemoveSelected abs_state_def step_RemoveSelected)
qed (auto simp: abs_state_def step_def handler_simps widget_map_def split: option.split)

text \<open>
  C6: every reachable state of the code is, read through \<open>abs_state\<close>, a state of the
  abstract dashboard that satisfies its invariant, and every event moves it as the
  abstract operation \<open>abs_event\<close> names.
\<close>

theorem step_refines_spec:
  "reachable s \<Longrightarrow>
     spec_inv (abs_state s) \<and> abs_state (step s e) = spec_step (abs_state s) (abs_event s e)"
  using reachable_app_inv app_inv_spec_inv abs_state_step by blast

theorem step_refines_spec_witness:
  "reachable initial_state \<and>
   abs_state (step initial_state AddWidget) =
     spec_step (abs_state initial_state) (SpecAdd (onAddItem_item initial_state)) \<and>
   widgets (abs_state (step initial_state AddWidget)) ''new-0'' =
     Some (onAddItem_item initial_state)"
proof -
  have r: "reachable initial_state" by (rule reachable.initial)
  have "widgets (spec_step (abs_state initial_state) (SpecAdd (onAddItem_item initial_state))) ''new-0'' =
          Some (onAddItem_item initial_state)"
    by code_simp
  with r step_refines_spec [OF r, of AddWidget] show ?thesis by simp
qed

end
