(* ===== verification/Grid_Compaction.thy ===== *)
theory Grid_Compaction
  imports Layout "HOL-Library.Product_Lexorder"
begin

text \<open>
  A vertical compactor as spec section 4.3 describes the renderer: it bounds every item
  to the columns, visits the items top to bottom and left to right (sorted by
  \<open>(y, x)\<close>, with the \<open>Infinity\<close> row last), lets each rise from
  \<open>min(bottom, y)\<close> while the cell above is free, then drops it below the first
  placed item it collides with until it collides with none.  It is modelled from the
  spec, not from the library's source (which also pushes later items down while it
  resolves a collision).  Two items collide when their ids differ and their rectangles
  intersect.  The theorems: the rising and dropping loops terminate (\<open>move_down\<close> has
  a measure, the distance to the bottom of the placed items), the result satisfies
  \<open>grid_contract\<close>, no two items of the result collide, every item rests on the
  top row or on an item placed before it (\<open>stacked\<close>), and the compacted grid is no
  taller than the sum of the item heights.
\<close>

fun rows_overlap :: "ycoord \<Rightarrow> int \<Rightarrow> ycoord \<Rightarrow> int \<Rightarrow> bool" where
  "rows_overlap (Row a) ha (Row b) hb = (a < b + hb \<and> b < a + ha)"
| "rows_overlap _ _ _ _ = False"

definition collides :: "layout_item \<Rightarrow> layout_item \<Rightarrow> bool" where
  "collides l1 l2 \<longleftrightarrow>
     item_i l1 \<noteq> item_i l2 \<and>
     item_x l1 < item_x l2 + item_w l2 \<and> item_x l2 < item_x l1 + item_w l1 \<and>
     rows_overlap (item_y l1) (item_h l1) (item_y l2) (item_h l2)"

definition row_end :: "layout_item \<Rightarrow> int" where
  "row_end l = (case item_y l of Row r \<Rightarrow> r + item_h l | Infinity \<Rightarrow> 0)"

text \<open>The first row below every placed item (0 for none).\<close>

fun bottom :: "layout_item list \<Rightarrow> int" where
  "bottom [] = 0"
| "bottom (l # ls) = max (row_end l) (bottom ls)"

definition at_row :: "layout_item \<Rightarrow> int \<Rightarrow> layout_item" where
  "at_row it r = it\<lparr>item_y := Row r\<rparr>"

definition first_collision :: "layout_item list \<Rightarrow> layout_item \<Rightarrow> layout_item option" where
  "first_collision placed it = find (\<lambda>c. collides c it) placed"

text \<open>Rise while the item does not collide at its current row.\<close>

function move_up :: "layout_item list \<Rightarrow> layout_item \<Rightarrow> int \<Rightarrow> int" where
  "move_up placed it r =
     (if 0 < r \<and> first_collision placed (at_row it r) = None
      then move_up placed it (r - 1) else r)"
  by pat_completeness auto
termination
  by (relation "measure (\<lambda>(placed, it, r). nat r)") auto

lemma collides_row_end:
  "collides c (at_row it r) \<Longrightarrow> r < row_end c"
  by (cases "item_y c") (auto simp: collides_def at_row_def row_end_def)

lemma row_end_le_bottom: "c \<in> set placed \<Longrightarrow> row_end c \<le> bottom placed"
  by (induction placed) auto

lemma first_collision_SomeD:
  "first_collision placed it = Some c \<Longrightarrow> c \<in> set placed \<and> collides c it"
  by (auto simp: first_collision_def dest: find_Some_iff [THEN iffD1])

text \<open>Drop below the first collision until there is none.\<close>

function move_down :: "layout_item list \<Rightarrow> layout_item \<Rightarrow> int \<Rightarrow> int" where
  "move_down placed it r =
     (case first_collision placed (at_row it r) of
        None \<Rightarrow> r
      | Some c \<Rightarrow> move_down placed it (row_end c))"
  by pat_completeness auto
termination
proof (relation "measure (\<lambda>(placed, it, r). nat (bottom placed - r))")
  fix placed it r c
  assume "first_collision placed (at_row it r) = Some c"
  then have "c \<in> set placed" "collides c (at_row it r)"
    by (simp_all add: first_collision_SomeD)
  then have "r < row_end c" "row_end c \<le> bottom placed"
    by (simp_all add: collides_row_end row_end_le_bottom)
  then show "((placed, it, row_end c), placed, it, r) \<in> measure (\<lambda>(placed, it, r). nat (bottom placed - r))"
    by simp
qed simp

declare move_up.simps [simp del] move_down.simps [simp del]

text \<open>Bound an item to the columns (width in \<open>[1, cols]\<close>, \<open>x\<close> in \<open>[0, cols - w]\<close>,
  height at least 1) and place it below the already placed items.\<close>

definition bound_item :: "int \<Rightarrow> layout_item \<Rightarrow> layout_item" where
  "bound_item cols it =
     (let w = max 1 (min (item_w it) cols)
      in it\<lparr>item_x := max 0 (min (item_x it) (cols - w)), item_w := w,
            item_h := max 1 (item_h it)\<rparr>)"

definition compact_item :: "int \<Rightarrow> layout_item list \<Rightarrow> layout_item \<Rightarrow> layout_item" where
  "compact_item cols placed it =
     (let it1 = bound_item cols it;
          start = (case item_y it of Row r \<Rightarrow> min (bottom placed) (max 0 r)
                                   | Infinity \<Rightarrow> bottom placed)
      in at_row it1 (move_down placed it1 (move_up placed it1 start)))"

fun compact_all :: "int \<Rightarrow> layout_item list \<Rightarrow> layout_item list \<Rightarrow> layout_item list" where
  "compact_all cols placed [] = placed"
| "compact_all cols placed (it # its) =
     compact_all cols (placed @ [compact_item cols placed it]) its"

definition compact :: "int \<Rightarrow> layout_item list \<Rightarrow> layout_item list" where
  "compact cols items = compact_all cols [] (sort_key (\<lambda>it. (item_y it, item_x it)) items)"

text \<open>An item rests on the top row or directly on an item placed before it that
  shares a column with it: the result of a compaction has no vertical gaps.\<close>

definition supported_by :: "layout_item list \<Rightarrow> layout_item \<Rightarrow> bool" where
  "supported_by placed it \<longleftrightarrow>
     item_y it = Row 0 \<or>
     (\<exists>c \<in> set placed. item_i c \<noteq> item_i it \<and>
        item_x c < item_x it + item_w it \<and> item_x it < item_x c + item_w c \<and>
        item_y it = Row (row_end c))"

fun stacked :: "layout_item list \<Rightarrow> layout_item list \<Rightarrow> bool" where
  "stacked placed [] = True"
| "stacked placed (it # its) = (supported_by placed it \<and> stacked (placed @ [it]) its)"

subsection \<open>Correctness of the compactor\<close>

lemma bottom_nonneg: "0 \<le> bottom placed"
  by (induction placed) auto

lemma first_collision_None:
  "first_collision placed it = None \<longleftrightarrow> (\<forall>c \<in> set placed. \<not> collides c it)"
  by (induction placed) (auto simp: first_collision_def)

lemma collides_sym: "collides a b = collides b a"
  by (cases "item_y a"; cases "item_y b") (auto simp: collides_def)

lemma move_up_nonneg: "0 \<le> r \<Longrightarrow> 0 \<le> move_up placed it r"
proof (induction placed it r rule: move_up.induct)
  case (1 placed it r)
  then show ?case by (subst move_up.simps) simp
qed

lemma move_down_ge: "r \<le> move_down placed it r"
proof (induction placed it r rule: move_down.induct)
  case (1 placed it r)
  show ?case
  proof (cases "first_collision placed (at_row it r)")
    case None
    then show ?thesis by (subst move_down.simps) simp
  next
    case (Some c)
    then have "r < row_end c"
      using first_collision_SomeD collides_row_end by blast
    with "1" Some show ?thesis
      by (subst move_down.simps) fastforce
  qed
qed

lemma move_down_free:
  "first_collision placed (at_row it (move_down placed it r)) = None"
proof (induction placed it r rule: move_down.induct)
  case (1 placed it r)
  then show ?case
    by (cases "first_collision placed (at_row it r)") (simp_all add: move_down.simps [of placed it r])
qed

lemma item_i_compact_item [simp]: "item_i (compact_item cols placed it) = item_i it"
  by (simp add: compact_item_def bound_item_def at_row_def Let_def)

lemma compact_item_row:
  "\<exists>r. 0 \<le> r \<and> item_y (compact_item cols placed it) = Row r"
proof -
  let ?it1 = "bound_item cols it"
  let ?start = "case item_y it of Row r \<Rightarrow> min (bottom placed) (max 0 r) | Infinity \<Rightarrow> bottom placed"
  have "0 \<le> ?start" using bottom_nonneg [of placed] by (cases "item_y it") auto
  then have "0 \<le> move_up placed ?it1 ?start" by (rule move_up_nonneg)
  then have "0 \<le> move_down placed ?it1 (move_up placed ?it1 ?start)"
    using move_down_ge order_trans by blast
  then show ?thesis by (simp add: compact_item_def at_row_def Let_def)
qed

lemma bound_item_bounds:
  assumes "0 < cols"
  shows "0 \<le> item_x (bound_item cols it) \<and>
         item_x (bound_item cols it) + item_w (bound_item cols it) \<le> cols \<and>
         1 \<le> item_w (bound_item cols it) \<and> 1 \<le> item_h (bound_item cols it)"
proof -
  define w where "w = max 1 (min (item_w it) cols)"
  have w: "1 \<le> w" "w \<le> cols" using assms by (auto simp: w_def)
  then have "0 \<le> max 0 (min (item_x it) (cols - w))" "max 0 (min (item_x it) (cols - w)) + w \<le> cols"
    by linarith+
  with w show ?thesis by (simp add: bound_item_def Let_def w_def [symmetric])
qed

lemma compact_item_fields:
  "item_x (compact_item cols placed it) = item_x (bound_item cols it)"
  "item_w (compact_item cols placed it) = item_w (bound_item cols it)"
  "item_h (compact_item cols placed it) = item_h (bound_item cols it)"
  by (simp_all add: compact_item_def at_row_def Let_def)

lemma compact_item_in_bounds:
  assumes "0 < cols"
  shows "item_in_bounds cols (compact_item cols placed it)"
proof -
  obtain r where "0 \<le> r" "item_y (compact_item cols placed it) = Row r"
    using compact_item_row by blast
  with bound_item_bounds [OF assms, of it] show ?thesis
    by (simp add: item_in_bounds_def compact_item_fields)
qed

lemma compact_item_free:
  "c \<in> set placed \<Longrightarrow> \<not> collides c (compact_item cols placed it)"
  using move_down_free by (auto simp: compact_item_def Let_def first_collision_None)

lemma compact_all_ids:
  "map item_i (compact_all cols placed its) = map item_i placed @ map item_i its"
  by (induction its arbitrary: placed) auto

lemma compact_all_in_bounds:
  "0 < cols \<Longrightarrow> list_all (item_in_bounds cols) placed \<Longrightarrow>
     list_all (item_in_bounds cols) (compact_all cols placed its)"
  by (induction its arbitrary: placed) (auto simp: compact_item_in_bounds)

lemma compact_all_no_collision:
  "sorted_wrt (\<lambda>a b. \<not> collides a b) placed \<Longrightarrow>
     sorted_wrt (\<lambda>a b. \<not> collides a b) (compact_all cols placed its)"
  by (induction its arbitrary: placed) (auto simp: sorted_wrt_append compact_item_free)

text \<open>The compactor keeps the ids, bounds every item and leaves no two colliding.\<close>

lemma compact_meets_contract:
  "0 < cols \<Longrightarrow>
     grid_contract cols items (compact cols items) \<and>
     sorted_wrt (\<lambda>a b. \<not> collides a b) (compact cols items)"
proof -
  assume c: "0 < cols"
  let ?sorted = "sort_key (\<lambda>it. (item_y it, item_x it)) items"
  have "mset (map item_i (compact cols items)) = mset (map item_i items)"
    by (simp add: compact_def compact_all_ids)
  moreover have "list_all (item_in_bounds cols) (compact cols items)"
    using compact_all_in_bounds [OF c, of "[]"] by (simp add: compact_def)
  moreover have "sorted_wrt (\<lambda>a b. \<not> collides a b) (compact cols items)"
    using compact_all_no_collision [of "[]"] by (simp add: compact_def)
  ultimately show ?thesis by (simp add: grid_contract_def)
qed

subsection \<open>No gaps, bounded height\<close>

lemma move_up_result:
  "0 \<le> r \<Longrightarrow> move_up placed it r = 0 \<or> first_collision placed (at_row it (move_up placed it r)) \<noteq> None"
proof (induction placed it r rule: move_up.induct)
  case (1 placed it r)
  then show ?case by (subst (1 2) move_up.simps) auto
qed

lemma move_down_result:
  "move_down placed it r = r \<or>
   (\<exists>c \<in> set placed. (\<exists>r'. collides c (at_row it r')) \<and> move_down placed it r = row_end c)"
proof (induction placed it r rule: move_down.induct)
  case (1 placed it r)
  show ?case
  proof (cases "first_collision placed (at_row it r)")
    case None
    then show ?thesis by (simp add: move_down.simps [of placed it r])
  next
    case (Some c)
    then have c: "c \<in> set placed" "collides c (at_row it r)"
      by (simp_all add: first_collision_SomeD)
    from "1" Some have "move_down placed it (row_end c) = row_end c \<or>
        (\<exists>c' \<in> set placed. (\<exists>r'. collides c' (at_row it r')) \<and>
           move_down placed it (row_end c) = row_end c')" by simp
    with c Some show ?thesis
      by (auto simp: move_down.simps [of placed it r])
  qed
qed

lemma move_down_moves:
  "first_collision placed (at_row it r) \<noteq> None \<Longrightarrow> move_down placed it r \<noteq> r"
proof -
  assume "first_collision placed (at_row it r) \<noteq> None"
  then obtain c where c: "first_collision placed (at_row it r) = Some c" by auto
  then have "r < row_end c" using first_collision_SomeD collides_row_end by blast
  moreover have "row_end c \<le> move_down placed it (row_end c)" by (rule move_down_ge)
  ultimately show ?thesis using c by (simp add: move_down.simps [of placed it r])
qed

lemma collides_at_row_columns:
  "collides c (at_row it r) \<Longrightarrow>
     item_i c \<noteq> item_i it \<and> item_x c < item_x it + item_w it \<and> item_x it < item_x c + item_w c"
  by (simp add: collides_def at_row_def)

lemma compact_item_supported: "supported_by placed (compact_item cols placed it)"
proof -
  define it1 where "it1 = bound_item cols it"
  define start where "start = (case item_y it of Row r \<Rightarrow> min (bottom placed) (max 0 r)
                                              | Infinity \<Rightarrow> bottom placed)"
  define r1 where "r1 = move_up placed it1 start"
  define r2 where "r2 = move_down placed it1 r1"
  have eq: "compact_item cols placed it = at_row it1 r2"
    by (simp add: compact_item_def Let_def it1_def start_def r1_def r2_def)
  have "0 \<le> start" using bottom_nonneg [of placed] by (cases "item_y it") (auto simp: start_def)
  then have up: "r1 = 0 \<or> first_collision placed (at_row it1 r1) \<noteq> None"
    unfolding r1_def by (rule move_up_result)
  show ?thesis
  proof (cases "r2 = r1")
    case True
    with up move_down_moves [of placed it1 r1] have "r1 = 0" by (auto simp: r2_def)
    with True show ?thesis by (simp add: eq supported_by_def at_row_def)
  next
    case False
    with move_down_result [of placed it1 r1] obtain c r' where
      c: "c \<in> set placed" "collides c (at_row it1 r')" "r2 = row_end c"
      by (auto simp: r2_def)
    from collides_at_row_columns [OF c(2)] c(1,3) show ?thesis
      by (auto simp: eq supported_by_def at_row_def)
  qed
qed

lemma compact_all_stacked:
  "\<exists>ys. compact_all cols placed its = placed @ ys \<and> stacked placed ys"
proof (induction its arbitrary: placed)
  case Nil
  then show ?case by simp
next
  case (Cons it its)
  obtain ys where "compact_all cols (placed @ [compact_item cols placed it]) its =
      (placed @ [compact_item cols placed it]) @ ys"
    and "stacked (placed @ [compact_item cols placed it]) ys"
    using Cons.IH by blast
  then show ?case
    by (intro exI [of _ "compact_item cols placed it # ys"]) (simp add: compact_item_supported)
qed

lemma compact_stacked: "stacked [] (compact cols items)"
  using compact_all_stacked [of cols "[]"] by (auto simp: compact_def)

lemma bottom_snoc: "bottom (xs @ [x]) = max (bottom xs) (row_end x)"
  by (induction xs) auto

lemma compact_item_row_end:
  "row_end (compact_item cols placed it) \<le> bottom placed + max 1 (item_h it)"
proof -
  have h: "item_h (compact_item cols placed it) = max 1 (item_h it)"
    by (simp add: compact_item_def at_row_def bound_item_def Let_def)
  obtain r where r: "item_y (compact_item cols placed it) = Row r"
    using compact_item_row by blast
  have "r \<le> bottom placed"
    using compact_item_supported [of placed cols it] r bottom_nonneg [of placed]
    by (auto simp: supported_by_def dest: row_end_le_bottom)
  with r h show ?thesis by (simp add: row_end_def)
qed

lemma compact_all_height:
  "bottom (compact_all cols placed its) \<le> bottom placed + sum_list (map (\<lambda>it. max 1 (item_h it)) its)"
proof (induction its arbitrary: placed)
  case (Cons it its)
  have m: "bottom (placed @ [compact_item cols placed it]) \<le> bottom placed + max 1 (item_h it)"
    using compact_item_row_end [of cols placed it] by (simp add: bottom_snoc)
  have "bottom (compact_all cols (placed @ [compact_item cols placed it]) its) \<le>
        bottom (placed @ [compact_item cols placed it]) + sum_list (map (\<lambda>it. max 1 (item_h it)) its)"
    by (rule Cons.IH)
  with m show ?case by simp
qed simp

lemma sum_list_sort_key:
  "sum_list (map (f :: 'a \<Rightarrow> 'b::comm_monoid_add) (sort_key k xs)) = sum_list (map f xs)"
proof -
  have "sum_mset (mset (map f (sort_key k xs))) = sum_mset (mset (map f xs))"
    by (simp only: mset_map mset_sort)
  then show ?thesis by (simp only: sum_mset_sum_list)
qed

lemma compact_height:
  "bottom (compact cols items) \<le> sum_list (map (\<lambda>it. max 1 (item_h it)) items)"
proof -
  have "bottom (compact cols items) \<le>
          sum_list (map (\<lambda>it. max 1 (item_h it)) (sort_key (\<lambda>it. (item_y it, item_x it)) items))"
    using compact_all_height [of cols "[]"] by (simp add: compact_def)
  then show ?thesis by (simp only: sum_list_sort_key)
qed

end
