(* ===== verification/Compaction_Fixpoint.thy ===== *)
theory Compaction_Fixpoint
  imports Grid_Compaction
begin

text \<open>
  Compaction is stable.  A layout is \<open>settled\<close> when every item lies inside the
  columns, no two items collide and every item rests on the top row or on another item
  that shares one of its columns; the compactor produces settled layouts, and on a
  settled layout it only sorts the items by \<open>(y, x)\<close>.  This is what makes the loop
  "the grid reports a layout, \<open>onLayoutChange\<close> stores it, React renders, the grid
  compacts it again" settle (root theory).
\<close>

definition settled :: "int \<Rightarrow> layout_item list \<Rightarrow> bool" where
  "settled cols L \<longleftrightarrow>
     list_all (item_in_bounds cols) L \<and>
     (\<forall>a \<in> set L. \<forall>b \<in> set L. \<not> collides a b) \<and>
     (\<forall>it \<in> set L. supported_by L it)"

abbreviation compact_key :: "layout_item \<Rightarrow> ycoord \<times> int" where
  "compact_key it \<equiv> (item_y it, item_x it)"

subsection \<open>A compacted layout is settled\<close>

lemma supported_by_mono:
  "supported_by P it \<Longrightarrow> set P \<subseteq> set Q \<Longrightarrow> supported_by Q it"
  by (auto simp: supported_by_def)

lemma stacked_supported:
  "stacked P L \<Longrightarrow> it \<in> set L \<Longrightarrow> supported_by (P @ L) it"
proof (induction L arbitrary: P)
  case (Cons x L)
  show ?case
  proof (cases "it = x")
    case True
    with Cons.prems show ?thesis by (auto elim: supported_by_mono)
  next
    case False
    with Cons.prems Cons.IH [of "P @ [x]"] show ?thesis by simp
  qed
qed simp

lemma sorted_wrt_no_collision_all:
  assumes "sorted_wrt (\<lambda>a b. \<not> collides a b) L"
  shows "\<forall>a \<in> set L. \<forall>b \<in> set L. \<not> collides a b"
proof (intro ballI)
  fix a b assume "a \<in> set L" "b \<in> set L"
  then obtain i j where ij: "i < length L" "j < length L" "L ! i = a" "L ! j = b"
    by (auto simp: in_set_conv_nth)
  consider "i < j" | "j < i" | "i = j" by linarith
  then show "\<not> collides a b"
  proof cases
    case 1
    with assms ij show ?thesis by (auto simp: sorted_wrt_iff_nth_less)
  next
    case 2
    with assms ij have "\<not> collides b a" by (auto simp: sorted_wrt_iff_nth_less)
    then show ?thesis by (simp add: collides_sym)
  next
    case 3
    with ij show ?thesis by (simp add: collides_def)
  qed
qed

lemma compact_settled:
  assumes "0 < cols"
  shows "settled cols (compact cols L)"
proof -
  from compact_meets_contract [OF assms, of L]
  have "list_all (item_in_bounds cols) (compact cols L)"
    and "sorted_wrt (\<lambda>a b. \<not> collides a b) (compact cols L)"
    by (simp_all add: grid_contract_def)
  moreover have "\<forall>it \<in> set (compact cols L). supported_by (compact cols L) it"
    using stacked_supported [OF compact_stacked, of _ cols L] by simp
  ultimately show ?thesis
    by (simp add: settled_def sorted_wrt_no_collision_all)
qed

subsection \<open>Compacting a settled item leaves it in place\<close>

lemma at_row_self [simp]: "item_y it = Row y \<Longrightarrow> at_row it y = it"
  by (simp add: at_row_def)

lemma bound_item_in_bounds:
  "item_in_bounds cols it \<Longrightarrow> bound_item cols it = it"
  by (simp add: item_in_bounds_def bound_item_def Let_def min_def max_def)

text \<open>The supporting item collides with the item one row higher.\<close>

lemma supporter_collides_above:
  assumes "item_in_bounds cols c" "item_in_bounds cols it"
    and "item_i c \<noteq> item_i it" "item_x c < item_x it + item_w it" "item_x it < item_x c + item_w c"
    and "row_end c = y"
  shows "collides c (at_row it (y - 1))"
  using assms by (auto simp: item_in_bounds_def collides_def at_row_def row_end_def split: ycoord.splits)

text \<open>An item that collides with a free item one row higher ends on that item's row.\<close>

lemma collides_above_row_end:
  assumes "collides c (at_row it (y - 1))" "\<not> collides c it"
    and "item_y it = Row y" "1 \<le> item_h it"
  shows "row_end c = y"
  using assms by (auto simp: collides_def at_row_def row_end_def split: ycoord.splits)

lemma compact_item_settled:
  assumes b: "item_in_bounds cols it" and placed: "list_all (item_in_bounds cols) placed"
    and free: "\<forall>c \<in> set placed. \<not> collides c it"
    and sup: "supported_by placed it"
  shows "compact_item cols placed it = it"
proof -
  obtain y where y: "item_y it = Row y" "0 \<le> y"
    using b by (auto simp: item_in_bounds_def split: ycoord.splits)
  have h: "1 \<le> item_h it" using b by (simp add: item_in_bounds_def)
  have free_y: "first_collision placed (at_row it y) = None"
    using free y by (simp add: first_collision_None)
  then have down: "move_down placed it y = y" by (simp add: move_down.simps [of placed it y])
  have "move_down placed it (move_up placed it (min (bottom placed) (max 0 y))) = y"
  proof (cases "y = 0")
    case True
    then have "min (bottom placed) (max 0 y) = 0" using bottom_nonneg [of placed] by simp
    moreover have "move_up placed it 0 = 0" by (simp add: move_up.simps [of placed it 0])
    ultimately show ?thesis using down True by simp
  next
    case False
    with sup y obtain c where c: "c \<in> set placed" "item_i c \<noteq> item_i it"
      "item_x c < item_x it + item_w it" "item_x it < item_x c + item_w c" "row_end c = y"
      by (auto simp: supported_by_def)
    have start: "min (bottom placed) (max 0 y) = y"
      using row_end_le_bottom [OF c(1)] c(5) y(2) by simp
    have "item_in_bounds cols c" using c(1) placed by (simp add: list_all_iff)
    from supporter_collides_above [OF this b c(2-5)] c(1)
    have hit: "first_collision placed (at_row it (y - 1)) \<noteq> None"
      by (auto simp: first_collision_None)
    have "move_up placed it (y - 1) = y - 1" by (simp add: move_up.simps [of placed it "y - 1"] hit)
    with free_y False y(2) have up: "move_up placed it y = y - 1"
      by (simp add: move_up.simps [of placed it y])
    from hit obtain c' where c': "first_collision placed (at_row it (y - 1)) = Some c'" by auto
    then have "c' \<in> set placed" "collides c' (at_row it (y - 1))"
      by (simp_all add: first_collision_SomeD)
    with free y(1) h have "row_end c' = y" using collides_above_row_end by blast
    with c' down have "move_down placed it (y - 1) = y"
      by (simp add: move_down.simps [of placed it "y - 1"])
    with start up show ?thesis by simp
  qed
  with y show ?thesis by (simp add: compact_item_def Let_def bound_item_in_bounds [OF b])
qed

text \<open>A supporting item comes first in the compactor's order.\<close>

lemma supporter_key_less:
  assumes "item_in_bounds cols c" "item_y it = Row (row_end c)"
  shows "compact_key c < compact_key it"
  using assms by (auto simp: item_in_bounds_def row_end_def less_prod_def less_ycoord_def
      split: ycoord.splits)

lemma supported_by_earlier:
  assumes sup: "supported_by L it" and bnd: "list_all (item_in_bounds cols) L"
    and L: "set L = set P \<union> set Q" and first: "\<forall>q \<in> set Q. compact_key it \<le> compact_key q"
  shows "supported_by P it"
proof (cases "item_y it = Row 0")
  case False
  with sup obtain c where c: "c \<in> set L" "item_i c \<noteq> item_i it"
    "item_x c < item_x it + item_w it" "item_x it < item_x c + item_w c"
    "item_y it = Row (row_end c)"
    by (auto simp: supported_by_def)
  have "compact_key c < compact_key it"
    using c(1,5) bnd supporter_key_less by (fastforce simp: list_all_iff)
  with first have "c \<notin> set Q" by fastforce
  with c L show ?thesis by (auto simp: supported_by_def)
qed (simp add: supported_by_def)

lemma compact_all_settled:
  assumes st: "settled cols L"
  shows "set P \<union> set Q = set L \<Longrightarrow> sorted (map compact_key Q) \<Longrightarrow> compact_all cols P Q = P @ Q"
proof (induction Q arbitrary: P)
  case (Cons it Q)
  have L: "it \<in> set L" "set P \<subseteq> set L" using Cons.prems(1) by auto
  have bnd: "list_all (item_in_bounds cols) L" using st by (simp add: settled_def)
  have "supported_by P it"
  proof (rule supported_by_earlier [OF _ bnd])
    show "supported_by L it" using st L(1) by (simp add: settled_def)
    show "set L = set P \<union> set (it # Q)" using Cons.prems(1) by simp
    show "\<forall>q \<in> set (it # Q). compact_key it \<le> compact_key q" using Cons.prems(2) by simp
  qed
  moreover have "\<forall>c \<in> set P. \<not> collides c it" using st L by (auto simp: settled_def)
  moreover have "item_in_bounds cols it" "list_all (item_in_bounds cols) P"
    using bnd L by (auto simp: list_all_iff)
  ultimately have "compact_item cols P it = it" by (simp add: compact_item_settled)
  moreover have "compact_all cols (P @ [it]) Q = (P @ [it]) @ Q"
    using Cons.prems by (intro Cons.IH) auto
  ultimately show ?case by simp
qed simp

subsection \<open>Compaction is stable\<close>

lemma settled_compact_sorts:
  "settled cols L \<Longrightarrow> compact cols L = sort_key compact_key L"
  using compact_all_settled [of cols L "[]" "sort_key compact_key L"]
  by (simp add: compact_def)

lemma compact_twice:
  "0 < cols \<Longrightarrow> compact cols (compact cols L) = sort_key compact_key (compact cols L)"
  by (rule settled_compact_sorts [OF compact_settled])

lemma compact_thrice:
  assumes "0 < cols"
  shows "compact cols (compact cols (compact cols L)) = compact cols (compact cols L)"
proof -
  have "compact cols (compact cols (compact cols L)) =
        sort_key compact_key (compact cols (compact cols L))"
    using assms by (rule compact_twice)
  also have "\<dots> = sort_key compact_key (sort_key compact_key (compact cols L))"
    using assms by (simp add: compact_twice)
  also have "\<dots> = compact cols (compact cols L)"
    using assms by (simp add: compact_twice sort_key_id_if_sorted)
  finally show ?thesis .
qed

end
