(* ===== verification/Callbacks.thy ===== *)
theory Callbacks
  imports Dashboard
begin

text \<open>
  Memoised callbacks (\<open>useCallback\<close> in \<open>src/src/App.tsx\<close>, lines 31-60).  On each
  render React returns the closure cached for a hook when the dependency list equals the
  one cached with it, and caches the new closure otherwise.  Only \<open>onAddItem\<close> reads
  state from its closure, so only its cache is modelled: \<open>onLayoutChange\<close>,
  \<open>onRemoveItem\<close> and \<open>handleSelectWidget\<close> have empty dependency lists, call only
  the setters (which React keeps stable) and use updaters, and in the model they are
  functions of their arguments alone, so a cached copy is the same function.
  React compares dependencies with \<open>Object.is\<close>, by reference for the \<open>items\<close>
  array; the model compares them by value, which reuses a cached closure in more renders
  than React does, so a closure that is never stale here is never stale in React.
  The theorem: with the dependency list \<open>[items, columns, newCounter]\<close> the memoised
  session computes exactly the session of fresh closures (\<open>Dashboard.run\<close>).
\<close>

definition useCallback :: "'f \<Rightarrow> 'd \<Rightarrow> ('f \<times> 'd) option \<Rightarrow> 'f \<times> 'd" where
  "useCallback fn deps cache =
     (case cache of
        Some (fn', deps') \<Rightarrow> if deps' = deps then (fn', deps') else (fn, deps)
      | None \<Rightarrow> (fn, deps))"

definition onAddItem_deps :: "app_state \<Rightarrow> layout_item list \<times> int \<times> nat" where
  "onAddItem_deps s = (items s, columns s, newCounter s)"

record memo_state =
  ms_app :: app_state
  ms_onAddItem :: "(state_updates \<times> (layout_item list \<times> int \<times> nat)) option"

text \<open>An event dispatched by a render whose \<open>onAddItem\<close> is the closure \<open>cb\<close>: the
  "Add Widget" button calls it, every other event runs its handler as before.\<close>

definition memo_handler :: "state_updates \<Rightarrow> app_state \<Rightarrow> event \<Rightarrow> state_updates" where
  "memo_handler cb s e = (if e = AddWidget then cb else handler s e)"

text \<open>A render of the current state (which consults and refreshes the cache) followed
  by one event.\<close>

definition memo_step :: "memo_state \<Rightarrow> event \<Rightarrow> memo_state" where
  "memo_step m e =
     (let s = ms_app m;
          cb = useCallback (onAddItem s) (onAddItem_deps s) (ms_onAddItem m)
      in \<lparr>ms_app = commit s (memo_handler (fst cb) s e), ms_onAddItem = Some cb\<rparr>)"

fun memo_run :: "memo_state \<Rightarrow> event list \<Rightarrow> memo_state" where
  "memo_run m [] = m"
| "memo_run m (e # es) = memo_run (memo_step m e) es"

definition memo_init :: "app_state \<Rightarrow> memo_state" where
  "memo_init s = \<lparr>ms_app = s, ms_onAddItem = None\<rparr>"

text \<open>The closure \<open>onAddItem\<close> would be if created in a render with the given
  dependency values.\<close>

definition onAddItem_closure :: "layout_item list \<times> int \<times> nat \<Rightarrow> state_updates" where
  "onAddItem_closure d =
     (case d of (its, cols, n) \<Rightarrow>
        onAddItem \<lparr>items = its, columns = cols, newCounter = n, selectedItemId = None\<rparr>)"

definition cache_fresh :: "memo_state \<Rightarrow> bool" where
  "cache_fresh m \<longleftrightarrow>
     (case ms_onAddItem m of None \<Rightarrow> True | Some (f, d) \<Rightarrow> f = onAddItem_closure d)"

subsection \<open>The dependency list covers what the closure reads\<close>

lemma onAddItem_closure_deps: "onAddItem_closure (onAddItem_deps s) = onAddItem s"
  by (simp add: onAddItem_closure_def onAddItem_deps_def onAddItem_def onAddItem_item_def)

lemma useCallback_cases:
  "useCallback fn deps cache = (fn, deps) \<or>
   (cache = Some (useCallback fn deps cache) \<and> snd (useCallback fn deps cache) = deps)"
  by (auto simp: useCallback_def split: option.split)

lemma memo_callback_fresh:
  assumes "cache_fresh m"
  shows "fst (useCallback (onAddItem (ms_app m)) (onAddItem_deps (ms_app m)) (ms_onAddItem m)) =
           onAddItem (ms_app m) \<and>
         cache_fresh (memo_step m e)"
proof -
  let ?s = "ms_app m"
  let ?cb = "useCallback (onAddItem ?s) (onAddItem_deps ?s) (ms_onAddItem m)"
  have cb: "fst ?cb = onAddItem_closure (snd ?cb)"
  proof (cases "?cb = (onAddItem ?s, onAddItem_deps ?s)")
    case True
    then show ?thesis by (simp add: onAddItem_closure_deps)
  next
    case False
    then have "ms_onAddItem m = Some ?cb" using useCallback_cases by metis
    with assms show ?thesis by (cases ?cb) (simp add: cache_fresh_def)
  qed
  moreover have "snd ?cb = onAddItem_deps ?s"
    using useCallback_cases [of "onAddItem ?s" "onAddItem_deps ?s" "ms_onAddItem m"] by auto
  ultimately have "fst ?cb = onAddItem ?s" by (simp add: onAddItem_closure_deps)
  moreover from cb have "cache_fresh (memo_step m e)"
    by (cases ?cb) (simp add: memo_step_def cache_fresh_def Let_def)
  ultimately show ?thesis by blast
qed

lemma memo_step_app:
  "cache_fresh m \<Longrightarrow> ms_app (memo_step m e) = step (ms_app m) e"
  using memo_callback_fresh [of m e]
  by (simp add: memo_step_def memo_handler_def step_def Let_def)

lemma memo_run_fresh:
  "cache_fresh m \<Longrightarrow> ms_app (memo_run m es) = run (ms_app m) es"
proof (induction es arbitrary: m)
  case Nil
  then show ?case by simp
next
  case (Cons e es)
  then have "cache_fresh (memo_step m e)" using memo_callback_fresh by blast
  with Cons show ?case by (simp add: memo_step_app)
qed

text \<open>
  C19: the memoised \<open>onAddItem\<close> is never stale: from any state and a fresh cache,
  a session of renders that reuse cached closures whenever the dependency list
  \<open>[items, columns, newCounter]\<close> is unchanged reaches the same state as the session
  in which every render creates its handlers anew.
\<close>

theorem memoised_session_equivalent:
  "ms_app (memo_run (memo_init s) es) = run s es"
proof -
  have "cache_fresh (memo_init s)" by (simp add: memo_init_def cache_fresh_def)
  then show ?thesis by (simp add: memo_run_fresh memo_init_def)
qed

end
