(* ===== verification/Number_Precision.thy ===== *)
theory Number_Precision
  imports Dashboard
begin

text \<open>
  \<open>newCounter\<close> is a JavaScript number, an IEEE 754 double.  \<open>onAddItem\<close>
  (\<open>src/src/App.tsx\<close>, lines 37-52) computes \<open>newCounter + 1\<close>, which is exact below
  \<open>2^53\<close> and rounds to the nearest double (ties to even) above: \<open>2^53 + 1\<close> rounds
  back to \<open>2^53\<close>.  \<open>js_incr\<close> is that addition on the non-negative integers a double
  holds, \<open>onAddItem_f64\<close> is \<open>onAddItem\<close> with it, and \<open>step_f64\<close> the session step
  with it.  The theorem: the ids are distinct for exactly the first \<open>2^53 + 1\<close>
  additions, and up to that bound they are the ids of the exact model of
  \<open>Dashboard\<close>, which the other theorems use.
\<close>

text \<open>\<open>n + 1\<close> in double precision for an integer \<open>n \<ge> 0\<close> that is a double: below
  \<open>2^53\<close> every integer is a double; in \<open>[2^53, 2^54)\<close> the doubles are the even
  integers and \<open>n + 1\<close> lies half-way between \<open>n\<close> and \<open>n + 2\<close>, so it rounds to the
  one whose significand is even; from \<open>2^54\<close> on it is less than half a unit away.\<close>

definition js_incr :: "nat \<Rightarrow> nat" where
  "js_incr n =
     (if n < 2 ^ 53 then n + 1
      else if n < 2 ^ 54 then (if n mod 4 = 0 then n else n + 2)
      else n)"

definition onAddItem_f64 :: "app_state \<Rightarrow> state_updates" where
  "onAddItem_f64 s =
     no_updates\<lparr>newCounter_queue := [SetValue (js_incr (newCounter s))],
                items_queue := [SetValue (items s @ [onAddItem_item s])]\<rparr>"

definition step_f64 :: "app_state \<Rightarrow> event \<Rightarrow> app_state" where
  "step_f64 s e = (if e = AddWidget then commit s (onAddItem_f64 s) else step s e)"

fun created_ids_f64 :: "app_state \<Rightarrow> event list \<Rightarrow> widget_id list" where
  "created_ids_f64 s [] = []"
| "created_ids_f64 s (e # es) =
     (if e = AddWidget then [item_i (onAddItem_item s)] else []) @ created_ids_f64 (step_f64 s e) es"

subsection \<open>The counter saturates at \<open>2^53\<close>\<close>

lemma js_incr_safe: "n \<le> 2 ^ 53 \<Longrightarrow> js_incr n = min (n + 1) (2 ^ 53)"
  by (auto simp: js_incr_def)

lemma step_f64_newCounter:
  "newCounter (step_f64 s e) = (if e = AddWidget then js_incr (newCounter s) else newCounter s)"
  by (simp add: step_f64_def onAddItem_f64_def commit_def step_newCounter)

lemma min_shift: "c \<le> (N::nat) \<Longrightarrow> min (min (c + 1) N + j) N = min (c + 1 + j) N"
  by auto

lemma created_ids_f64_from:
  "newCounter s \<le> 2 ^ 53 \<Longrightarrow>
     created_ids_f64 s es =
       map (\<lambda>j. new_item_id (min (newCounter s + j) (2 ^ 53))) [0..<count_adds es]"
proof (induction es arbitrary: s)
  case Nil
  then show ?case by (simp add: count_adds_def)
next
  case (Cons e es)
  have c: "newCounter (step_f64 s e) \<le> 2 ^ 53"
    using Cons.prems by (simp add: step_f64_newCounter js_incr_safe)
  show ?case
  proof (cases "e = AddWidget")
    case True
    define k where "k = count_adds es"
    have nc: "newCounter (step_f64 s e) = min (newCounter s + 1) (2 ^ 53)"
      using True Cons.prems by (simp add: step_f64_newCounter js_incr_safe)
    have "created_ids_f64 (step_f64 s e) es =
            map (\<lambda>j. new_item_id (min (newCounter s + 1 + j) (2 ^ 53))) [0..<k]"
      using Cons.IH [OF c] Cons.prems by (simp only: nc k_def min_shift)
    moreover have "item_i (onAddItem_item s) = new_item_id (min (newCounter s + 0) (2 ^ 53))"
      using Cons.prems by (simp add: onAddItem_item_def)
    moreover have "count_adds (e # es) = Suc k" using True by (simp add: count_adds_def k_def)
    ultimately show ?thesis
      using True by (simp only: created_ids_f64.simps map_upt_Suc if_True append_Cons append_Nil
          add_Suc_right add_Suc plus_1_eq_Suc) simp
  next
    case False
    with Cons.IH [OF c] show ?thesis by (simp add: count_adds_def step_f64_newCounter)
  qed
qed

lemma inj_on_min_upt: "inj_on (\<lambda>j. min j N) {0..<k} \<longleftrightarrow> k \<le> Suc (N::nat)"
proof
  assume inj: "inj_on (\<lambda>j. min j N) {0..<k}"
  show "k \<le> Suc N"
  proof (rule ccontr)
    assume "\<not> k \<le> Suc N"
    then have "N \<in> {0..<k}" "Suc N \<in> {0..<k}" by auto
    from inj_onD [OF inj _ this] show False by simp
  qed
next
  assume "k \<le> Suc N"
  then show "inj_on (\<lambda>j. min j N) {0..<k}" by (auto simp: inj_on_def)
qed

lemma distinct_map_new_item_id: "distinct (map new_item_id xs) \<longleftrightarrow> distinct xs"
  by (simp add: distinct_map inj_on_def new_item_id_def nat_to_js_string_inj)

text \<open>
  C22: with double-precision numbers the ids "Add Widget" creates along any session from
  the initial state are pairwise distinct exactly when the session adds at most
  \<open>2^53 + 1\<close> widgets, and up to that bound they are the ids of the exact model
  (\<open>new-0\<close>, \<open>new-1\<close>, ...); from then on every addition reuses
  \<open>new-9007199254740992\<close>.
\<close>

theorem ids_distinct_up_to_2p53:
  "(distinct (created_ids_f64 initial_state es) \<longleftrightarrow> count_adds es \<le> 2 ^ 53 + 1) \<and>
   (count_adds es \<le> 2 ^ 53 + 1 \<longrightarrow> created_ids_f64 initial_state es = created_ids initial_state es)"
proof -
  have c0: "newCounter initial_state = 0" by (simp add: initial_state_def)
  have f: "created_ids_f64 initial_state es =
             map new_item_id (map (\<lambda>j. min j (2 ^ 53)) [0..<count_adds es])"
    using created_ids_f64_from [of initial_state es] c0 by simp
  have e: "created_ids initial_state es = map new_item_id [0..<count_adds es]"
    using created_ids_from [of initial_state es] c0 by simp
  have "distinct (created_ids_f64 initial_state es) \<longleftrightarrow> count_adds es \<le> 2 ^ 53 + 1"
    using inj_on_min_upt [of "2 ^ 53" "count_adds es"]
    by (simp only: f distinct_map_new_item_id) (simp add: distinct_map)
  moreover have "count_adds es \<le> 2 ^ 53 + 1 \<Longrightarrow>
                   map (\<lambda>j. min j (2 ^ 53)) [0..<count_adds es] = [0..<count_adds es]"
    by (rule map_idI) auto
  ultimately show ?thesis by (simp add: f e)
qed

theorem ids_distinct_up_to_2p53_witness:
  "count_adds [AddWidget, AddWidget] \<le> 2 ^ 53 + 1 \<and>
   created_ids_f64 initial_state [AddWidget, AddWidget] = [''new-0'', ''new-1''] \<and>
   \<not> distinct (created_ids_f64 initial_state (replicate (2 ^ 53 + 2) AddWidget))"
proof -
  have c: "count_adds [AddWidget, AddWidget] \<le> 2 ^ 53 + 1"
    and r: "count_adds (replicate (2 ^ 53 + 2) AddWidget) = 2 ^ 53 + 2"
    by (simp_all add: count_adds_def)
  have "created_ids initial_state [AddWidget, AddWidget] = [''new-0'', ''new-1'']"
    by code_simp
  with c r ids_distinct_up_to_2p53 [of "[AddWidget, AddWidget]"]
    ids_distinct_up_to_2p53 [of "replicate (2 ^ 53 + 2) AddWidget"]
  show ?thesis by simp
qed

end
