(* ===== verification/Handler_Effects.thy ===== *)
theory Handler_Effects
  imports Dashboard
begin

text \<open>
  Which events of a session can take a widget off the grid.  Spec section 4.2 asks that
  widgets leave the grid only through "Remove Selected", with the selected id, and that
  \<open>removeItem(null)\<close> is never triggered.  The theorem: every other event keeps
  every id (the grid's report keeps them by its contract, "Add Widget" appends, the
  column field and the clicks do not write \<open>items\<close>), and "Remove Selected" removes
  only the id that was selected.
\<close>

subsection \<open>Only the selected widget is ever removed\<close>

lemma step_items_kept:
  "e \<noteq> RemoveSelected \<Longrightarrow> env_ok s e \<Longrightarrow>
     item_i ` set (items s) \<subseteq> item_i ` set (items (step s e))"
proof (cases e)
  case (LayoutChange L)
  moreover assume "env_ok s e"
  ultimately show ?thesis
    using grid_contract_ids [of "columns s" "items s" L] by (simp add: step_def handler_simps)
next
  case (ClickWidget j)
  then show ?thesis by (cases "j < length (items s)") (simp_all add: step_ClickWidget step_def handler_simps)
qed (auto simp: step_AddWidget step_ColumnsInput split: option.split)

text \<open>
  C23: no event removes a widget from the grid except "Remove Selected", and that one
  removes only the selected widget: if an id of the grid is gone after an event (the
  grid's report obeying its contract), the event was "Remove Selected" and the id was
  the selection.
\<close>

theorem removal_only_of_selected:
  assumes "env_ok s e"
    and "k \<in> item_i ` set (items s)" and "k \<notin> item_i ` set (items (step s e))"
  shows "e = RemoveSelected \<and> selectedItemId s = Some k"
proof -
  have e: "e = RemoveSelected" using step_items_kept [OF _ assms(1)] assms(2,3) by blast
  with assms(2,3) show ?thesis
    by (auto simp: step_RemoveSelected split: option.splits if_splits)
qed

theorem removal_only_of_selected_witness:
  "env_ok (run initial_state [ClickWidget 0]) RemoveSelected \<and>
   ''a'' \<in> item_i ` set (items (run initial_state [ClickWidget 0])) \<and>
   ''a'' \<notin> item_i ` set (items (step (run initial_state [ClickWidget 0]) RemoveSelected)) \<and>
   selectedItemId (run initial_state [ClickWidget 0]) = Some ''a''"
proof -
  have "''a'' \<in> item_i ` set (items (run initial_state [ClickWidget 0]))"
    and "''a'' \<notin> item_i ` set (items (step (run initial_state [ClickWidget 0]) RemoveSelected))"
    by code_simp+
  with removal_only_of_selected [of "run initial_state [ClickWidget 0]" RemoveSelected "''a''"]
  show ?thesis by simp
qed

end
