(* ===== verification/Spec2Isabelle.thy ===== *)
theory Spec2Isabelle
  imports Columns_Field Abstract_Spec Compaction_Fixpoint Callbacks Number_Precision Handler_Effects
begin

text \<open>
  \<^bold>\<open>A verification development of the dashboard of \<open>src/src/App.tsx\<close>.\<close>

  \<^bold>\<open>The program.\<close>  One React function component, \<open>App\<close>, holds the whole state of
  a page on which widgets are arranged on a grid: four \<open>useState\<close> hooks (\<open>items\<close>,
  the list of \<open>Layout\<close> entries \<open>{i, x, y, w, h}\<close>; \<open>columns\<close>; \<open>newCounter\<close>, the
  counter behind fresh ids; \<open>selectedItemId\<close>) and the handlers that change them:
  \<open>onLayoutChange\<close> (the grid reports a new arrangement), \<open>onAddItem\<close> ("Add
  Widget"), \<open>onRemoveItem\<close> with the \<open>onClick\<close> of "Remove Selected",
  \<open>handleSelectWidget\<close> (a click on a widget toggles its selection) and
  \<open>handleColumnsChange\<close> (the column field, through \<open>parseInt\<close>).  The grid itself is
  \<open>react-grid-layout\<close>, an external library: it receives \<open>items\<close> and \<open>columns\<close>,
  compacts and bounds the items and calls \<open>onLayoutChange\<close> with the result.

  \<^bold>\<open>The theories.\<close>
  \<^item> \<open>Prelude\<close>: fact collections (\<open>handler_simps\<close>, \<open>js_simps\<close>) and lemmas on
    lists keyed by an id (filtering by key, appending a fresh key, permutations).
  \<^item> \<open>Js_Runtime\<close>: the JavaScript built-ins the handlers call, from the ECMAScript
    specification: \<open>parseInt\<close> (any radix, \<open>NaN\<close> as \<open>None\<close>), \<open>nat_to_js_string\<close>
    (\<open>Number::toString\<close> of a counter, below \<open>10^21\<close> where it prints plain
    digits), \<open>js_rem\<close> (\<open>%\<close>), \<open>js_truthy\<close>, \<open>js_toUpperCase\<close>; lemmas on what
    \<open>parseInt\<close> reads from a sign followed by digits.
  \<^item> \<open>React_Hooks\<close>: a \<open>useState\<close> update queue, \<open>set_state_action\<close> (a value or an
    updater) and \<open>process_queue\<close>, React's fold of the queue at the next render.
  \<^item> \<open>Layout\<close>: the \<open>layout_item\<close> record, the row coordinate \<open>ycoord\<close> with the
    \<open>Infinity\<close> sentinel (a \<open>linorder\<close> instance with \<open>Infinity\<close> on top) and
    \<open>grid_contract\<close>, the promise of the renderer (spec section 4.3).
  \<^item> \<open>Dashboard\<close>: \<open>app_state\<close> (the four hooks), \<open>initial_state\<close> (lines 18-29),
    \<open>state_updates\<close> (what a handler queues) and \<open>commit\<close> (the next render), one
    definition per handler under its source name, the \<open>event\<close> datatype of user inputs
    and grid callbacks, \<open>handler\<close> (which handler an event runs), \<open>step\<close>, \<open>run\<close>,
    \<open>batch\<close> and the inductive set \<open>reachable\<close> of session states.
  \<^item> \<open>Grid_Compaction\<close>: a vertical compactor modelled from the spec's description
    of the renderer (\<open>bound_item\<close>, \<open>move_up\<close>, \<open>move_down\<close> with termination
    measures, \<open>compact\<close>), proved to meet \<open>grid_contract\<close> with no two items colliding,
    to leave no vertical gap (\<open>stacked\<close>) and to keep the grid no taller than the
    stacked heights.
  \<^item> \<open>Compaction_Fixpoint\<close>: \<open>settled\<close> layouts (in bounds, no collision, no gap); the
    compactor produces them and on them only sorts the items by \<open>(y, x)\<close>.
  \<^item> \<open>View\<close>: the render as data: \<open>render_grid_props\<close> (the props of
    \<open>GridLayout\<close>), \<open>render_widget\<close>/\<open>render_widgets\<close>, \<open>render_toolbar\<close> and
    \<open>render_app\<close>, the page.
  \<^item> \<open>Columns_Field\<close>: \<open>number_text\<close>, the values the number input of the Columns
    field (lines 76-86) can report (HTML value sanitization: the empty string or a valid
    floating-point number), modelled from the HTML standard.
  \<^item> \<open>Callbacks\<close>: the \<open>useCallback\<close> cache of \<open>onAddItem\<close> (lines 37-52):
    \<open>useCallback\<close>, \<open>onAddItem_deps\<close> (line 52), \<open>memo_step\<close> and \<open>memo_run\<close>, a
    session in which each render consults the cache before the event.
  \<^item> \<open>Number_Precision\<close>: \<open>newCounter + 1\<close> as a double-precision addition
    (\<open>js_incr\<close>), \<open>onAddItem_f64\<close> and \<open>step_f64\<close>, the session with it.
  \<^item> \<open>Handler_Effects\<close>: which events can take a widget off the grid.
  \<^item> \<open>Abstract_Spec\<close>: the spec's dashboard as a finite map (\<open>dashboard_spec\<close>,
    \<open>spec_step\<close>), the abstraction \<open>abs_state\<close> and the refinement theorem.
  \<^item> This theory: the render cycle (an event, then the grid's compacted
    \<open>onLayoutChange\<close> report, \<open>grid_report\<close>) and the drag and resize gestures of the
    grid (\<open>gesture\<close>, \<open>apply_gesture\<close>, \<open>gesture_cycle\<close>), which compose
    \<open>Dashboard\<close> with \<open>Grid_Compaction\<close>.

  \<^bold>\<open>How the code maps.\<close>  A handler closes over the state of the render that created
  it, so each handler definition takes that state and returns the setter calls it makes,
  in order, as queues of \<open>SetValue\<close> (\<open>setItems(xs)\<close>) and \<open>Updater\<close>
  (\<open>setItems(prev => ...)\<close>) actions.  React renders after every discrete event, so a
  step of the session is one handler and one \<open>commit\<close>.  The grid's callback is an event
  of the environment that \<open>reachable\<close> admits only when it satisfies
  \<open>grid_contract\<close>: the ids of the new layout are a permutation of the old ones and
  every item lies on a finite, non-negative row inside \<open>[0, columns)\<close>.  A click is
  on a rendered widget (an index into \<open>items\<close>); a disabled button receives no click.

  \<^bold>\<open>What is proved.\<close>
  \<^item> Session invariant (\<open>Dashboard\<close>, C1): in every reachable state the column count
    is positive, the ids are distinct and were handed out by the session, and the
    selection names a widget on the grid; by rule induction over \<open>reachable\<close>, one
    case per event (\<open>app_inv_step\<close>).
  \<^item> Ids (C2): along any run "Add Widget" hands out \<open>new-0, new-1, ...\<close> in order.
  \<^item> Removal and selection (C3, C5, C8, C9, C23): "Remove Selected" removes the
    selected widget and clears the selection and is enabled exactly when something is
    selected; removing an id removes exactly that id and keeps every other item, so it is
    idempotent and a no-op on an absent id; a click toggles the selection; and no event
    removes a widget except "Remove Selected", which removes only the selected one.
  \<^item> Column field (C4, C21): the spec's invalid inputs are discarded; on every value a
    number input can report, the handler keeps the integer part of the mantissa when it
    is present and positive and discards the input otherwise (\<open>5e-1\<close> sets 5).
  \<^item> Refinement (\<open>Abstract_Spec\<close>, C6): read as a finite map from id to layout
    entry, each step of the code is the abstract operation of the spec (bind a fresh
    id, delete the selected id, toggle, set a positive count, replace the map).
  \<^item> Placement (C7): new items start in column \<open>(2 * length items) mod columns\<close> on
    the \<open>Infinity\<close> row.
  \<^item> React semantics (C10, C15, C19): \<open>onAddItem\<close> writes closure values, so two
    additions against one render would add one item; widget clicks queue an updater, so
    clicks batched against one render equal the clicks one render at a time; a session
    whose renders reuse the memoised \<open>onAddItem\<close> while its dependency list is unchanged
    equals the session of fresh closures.
  \<^item> View (\<open>View\<close>, C11): a render of a reachable state has unique widget keys,
    highlights exactly the selected widget, and disables "Remove Selected" exactly when
    nothing is highlighted.
  \<^item> Dashboard and grid together (this theory, C12, C16-C18, C20): an event followed
    by the grid's compacted report keeps the session reachable, puts every item inside
    the grid and leaves no two widgets overlapping, so the renderer contract that
    \<open>reachable\<close> assumes can be met; after it every widget rests on the top row or on
    an earlier widget sharing a column and the grid is no taller than the sum of the
    heights; a drag or resize followed by the report keeps the ids, the selection and
    the columns; and the loop of reports and renders reaches a fixed point.
  \<^item> Data model (C13): every item of every reachable state has a non-negative column,
    width and height at least 1 and a non-negative row or the \<open>Infinity\<close> sentinel.
  \<^item> Liveness (C14): from every reachable state a script of clicks empties the grid.
  \<^item> Number width (\<open>Number_Precision\<close>, C22): with \<open>newCounter\<close> a double, the ids
    of a session are distinct exactly for the first \<open>2^53 + 1\<close> additions and agree
    with the exact model up to there, which bounds where C1 and C2 describe the code.
  The lemmas \<open>initial_layout_exceeds_columns\<close> and \<open>added_item_can_exceed_columns\<close>
  record two concrete layouts past the right edge behind the manifest's findings.

  \<^bold>\<open>Bounds and choices.\<close>  Numbers are exact: \<open>columns\<close> and the item coordinates are
  \<open>int\<close>, \<open>newCounter\<close> is \<open>nat\<close> (it starts at 0 and only grows).  JavaScript
  numbers are doubles; the one place where their width is proved to matter is the
  counter, whose increment rounds back at \<open>2^53\<close>: \<open>Number_Precision\<close> models that
  increment exactly (C22).  A column count typed beyond \<open>2^53\<close> is rounded by
  \<open>parseInt\<close> in JavaScript and kept exact here.  Strings are lists of 8-bit
  characters, so \<open>parseInt\<close>'s white space is its part below 256.  No loop of
  \<open>App.tsx\<close> is unbounded; the compactor's loops are \<open>function\<close>s with measures (the
  row for rising, the distance to the bottom of the placed items for dropping).
  \<open>useCallback\<close> compares its dependencies by value where React compares the
  \<open>items\<close> array by reference; the model therefore reuses closures at least as often
  as React, which makes C19 the stronger statement.

  \<^bold>\<open>Not modelled.\<close>  The source of \<open>react-grid-layout\<close>, which is not part of
  the repository and which the spec treats as a contract only ("do not reimplement
  compaction"): its compaction is modelled from the spec's description of vertical
  compaction (sorted output, without the library's own push-down of later items and its
  own bounds correction, which the spec does not describe), its gestures as their
  effect on the layout (no pixel geometry or mouse events), so the Grid Renderer
  component stays partly modelled.  The text the Columns field shows: React writes
  \<open>value={columns}\<close> into the input only when it is not loosely equal to the text the
  user typed, and \<open>Number::toString\<close> switches to exponent notation from \<open>10^21\<close>,
  so the displayed text needs the DOM's own state, which the model does not keep.  The
  MUI components (styling only) and the CSS imports.  The caches of the three other
  \<open>useCallback\<close> hooks, since their closures read no state.

  \<^bold>\<open>Plan.\<close>  Done: the state, every handler, the event wiring, the memoised
  callback, the page as data, the abstract specification with its step refinement, a
  compactor meeting the renderer contract with gap-freeness, a height bound and
  stability, render cycles, the settling of the render loop, gestures, the values a
  number input reports, and the double-precision counter.  Render cycles and gestures
  are steps of \<open>reachable\<close> (C12, C18), so C1 and C13 cover sessions made of them.
  What remains of \<open>App.tsx\<close> is styling (MUI props, CSS imports), which has no state
  and no behaviour to verify, and the DOM text of the Columns field.
\<close>

subsection \<open>Render cycles: the dashboard and the grid together\<close>

text \<open>
  After a user event React renders, the grid synchronises its layout with the new
  items, compacts it and reports it through \<open>onLayoutChange\<close>: a render cycle is
  the event's step followed by the grid's report, here the compactor of
  \<open>Grid_Compaction\<close>.  A gesture (spec section 4.3) drags a widget to a cell or
  resizes it; the grid then compacts the changed layout and reports it the same way.
\<close>

definition grid_report :: "app_state \<Rightarrow> layout_item list \<Rightarrow> app_state" where
  "grid_report s layout = step s (LayoutChange (compact (columns s) layout))"

definition render_cycle :: "app_state \<Rightarrow> event \<Rightarrow> app_state" where
  "render_cycle s e = (let s' = step s e in grid_report s' (items s'))"

datatype gesture = Drag nat int int | Resize nat int int

fun apply_gesture :: "gesture \<Rightarrow> layout_item list \<Rightarrow> layout_item list" where
  "apply_gesture (Drag k x y) layout =
     (if k < length layout then layout[k := (layout ! k)\<lparr>item_x := x, item_y := Row y\<rparr>] else layout)"
| "apply_gesture (Resize k w h) layout =
     (if k < length layout then layout[k := (layout ! k)\<lparr>item_w := w, item_h := h\<rparr>] else layout)"

definition gesture_cycle :: "app_state \<Rightarrow> gesture \<Rightarrow> app_state" where
  "gesture_cycle s g = grid_report s (apply_gesture g (items s))"

lemma apply_gesture_ids [simp]: "map item_i (apply_gesture g layout) = map item_i layout"
  by (cases g) (auto intro!: nth_equalityI simp: nth_list_update)

text \<open>The grid's report of any layout with the ids of the items: the session stays
  reachable and only the items change, to the compacted layout.\<close>

lemma grid_report_sound:
  assumes r: "reachable s" and ids: "mset (map item_i layout) = mset (map item_i (items s))"
  shows "reachable (grid_report s layout) \<and>
         grid_report s layout = s\<lparr>items := compact (columns s) layout\<rparr>"
proof -
  have "0 < columns s" using reachable_app_inv [OF r] by (simp add: app_inv_def)
  then have "grid_contract (columns s) layout (compact (columns s) layout)"
    using compact_meets_contract by blast
  with ids have "env_ok s (LayoutChange (compact (columns s) layout))"
    by (simp add: grid_contract_def)
  with r have "reachable (grid_report s layout)"
    unfolding grid_report_def by (rule reachable.event)
  then show ?thesis by (simp add: grid_report_def step_def handler_simps)
qed

lemma render_cycle_report:
  "reachable s \<Longrightarrow> env_ok s e \<Longrightarrow>
     reachable (render_cycle s e) \<and>
     render_cycle s e = (step s e)\<lparr>items := compact (columns (step s e)) (items (step s e))\<rparr> \<and>
     0 < columns (step s e)"
proof -
  assume "reachable s" "env_ok s e"
  then have r: "reachable (step s e)" by (rule reachable.event)
  then have c: "0 < columns (step s e)" using reachable_app_inv by (simp add: app_inv_def)
  have rc: "render_cycle s e = grid_report (step s e) (items (step s e))"
    by (simp add: render_cycle_def Let_def)
  have "reachable (render_cycle s e) \<and>
     render_cycle s e = (step s e)\<lparr>items := compact (columns (step s e)) (items (step s e))\<rparr>"
    unfolding rc by (rule grid_report_sound [OF r, of "items (step s e)", simplified])
  with c show ?thesis by blast
qed

lemma reachable_columns_pos: "reachable s \<Longrightarrow> 0 < columns s"
  using reachable_app_inv by (simp add: app_inv_def)

text \<open>
  C12: a render cycle from a reachable state is reachable (the compactor meets the
  renderer's contract, so the contract the session assumes can be met), and after it
  every item lies inside the grid and no two widgets overlap.
\<close>

theorem render_cycle_sound:
  assumes "reachable s" and "env_ok s e"
  shows "reachable (render_cycle s e) \<and>
         list_all (item_in_bounds (columns (render_cycle s e))) (items (render_cycle s e)) \<and>
         sorted_wrt (\<lambda>a b. \<not> collides a b) (items (render_cycle s e))"
  using render_cycle_report [OF assms] compact_meets_contract
  by (auto simp: grid_contract_def)

theorem render_cycle_sound_witness:
  "reachable initial_state \<and> env_ok initial_state AddWidget \<and>
   map (\<lambda>it. (item_i it, item_x it, item_y it)) (items (render_cycle initial_state AddWidget)) =
     [(''a'', 0, Row 0), (''b'', 4, Row 4), (''new-0'', 4, Row 8)]"
proof -
  have r: "reachable initial_state" by (rule reachable.initial)
  have "map (\<lambda>it. (item_i it, item_x it, item_y it)) (items (render_cycle initial_state AddWidget)) =
     [(''a'', 0, Row 0), (''b'', 4, Row 4), (''new-0'', 4, Row 8)]"
    by code_simp
  with render_cycle_sound [OF r, of AddWidget] r show ?thesis by simp
qed

text \<open>
  C16: after a render cycle the grid has no vertical gaps: every widget lies on the top
  row or directly on a widget before it that shares one of its columns.
\<close>

theorem render_cycle_stacked:
  "reachable s \<Longrightarrow> env_ok s e \<Longrightarrow> stacked [] (items (render_cycle s e))"
  using render_cycle_report compact_stacked by simp

theorem render_cycle_stacked_witness:
  "reachable initial_state \<and> env_ok initial_state AddWidget \<and>
   stacked [] (items (render_cycle initial_state AddWidget))"
proof -
  have r: "reachable initial_state" by (rule reachable.initial)
  from render_cycle_stacked [OF r, of AddWidget] r show ?thesis by simp
qed

text \<open>
  C17: after a render cycle the grid is no taller than the widgets stacked on top of
  each other: its bottom row is at most the sum of the item heights (each at least 1).
\<close>

theorem render_cycle_height:
  "reachable s \<Longrightarrow> env_ok s e \<Longrightarrow>
     bottom (items (render_cycle s e)) \<le> sum_list (map (\<lambda>it. max 1 (item_h it)) (items (step s e)))"
  using render_cycle_report compact_height by simp

theorem render_cycle_height_witness:
  "reachable initial_state \<and> env_ok initial_state AddWidget \<and>
   bottom (items (render_cycle initial_state AddWidget)) = 10 \<and>
   sum_list (map (\<lambda>it. max 1 (item_h it)) (items (step initial_state AddWidget))) = 10"
proof -
  have r: "reachable initial_state" by (rule reachable.initial)
  have "bottom (items (render_cycle initial_state AddWidget)) = 10"
    and "sum_list (map (\<lambda>it. max 1 (item_h it)) (items (step initial_state AddWidget))) = 10"
    by code_simp+
  with render_cycle_height [OF r, of AddWidget] r show ?thesis by simp
qed

text \<open>
  C18: a drag or resize gesture on a reachable state, compacted and reported by the
  grid, gives a reachable state with the same ids, the same selection and column count,
  every widget inside the grid and no two widgets overlapping.
\<close>

theorem gesture_cycle_sound:
  assumes "reachable s"
  shows "reachable (gesture_cycle s g) \<and>
         mset (map item_i (items (gesture_cycle s g))) = mset (map item_i (items s)) \<and>
         selectedItemId (gesture_cycle s g) = selectedItemId s \<and>
         columns (gesture_cycle s g) = columns s \<and>
         list_all (item_in_bounds (columns s)) (items (gesture_cycle s g)) \<and>
         sorted_wrt (\<lambda>a b. \<not> collides a b) (items (gesture_cycle s g))"
proof -
  have ids: "mset (map item_i (apply_gesture g (items s))) = mset (map item_i (items s))"
    by simp
  have c: "0 < columns s" using assms by (rule reachable_columns_pos)
  have conj: "reachable (gesture_cycle s g) \<and>
      gesture_cycle s g = s\<lparr>items := compact (columns s) (apply_gesture g (items s))\<rparr>"
    unfolding gesture_cycle_def by (rule grid_report_sound [OF assms ids])
  note r = conjunct1 [OF conj] and eq = conjunct2 [OF conj]
  from compact_meets_contract [OF c, of "apply_gesture g (items s)"] ids r show ?thesis
    by (simp add: eq grid_contract_def)
qed

theorem gesture_cycle_sound_witness:
  "reachable initial_state \<and>
   map (\<lambda>it. (item_i it, item_x it, item_y it)) (items (gesture_cycle initial_state (Drag 0 5 0))) =
     [(''a'', 4, Row 0), (''b'', 4, Row 4)] \<and>
   selectedItemId (gesture_cycle initial_state (Drag 0 5 0)) = None"
proof -
  have r: "reachable initial_state" by (rule reachable.initial)
  have "map (\<lambda>it. (item_i it, item_x it, item_y it)) (items (gesture_cycle initial_state (Drag 0 5 0))) =
     [(''a'', 4, Row 0), (''b'', 4, Row 4)]"
    by code_simp
  moreover have "selectedItemId initial_state = None" by (simp add: initial_state_def)
  ultimately show ?thesis
    using gesture_cycle_sound [OF r, of "Drag 0 5 0"] r by simp
qed

text \<open>
  C20: the loop of reports and renders settles.  After a render cycle from a reachable
  state, storing the layout makes React render again and the grid report its compaction
  of it: that second report keeps the session reachable and only reorders the widgets
  by row and column, and the report after it changes nothing, so the grid stops calling
  \<open>onLayoutChange\<close> with new layouts.
\<close>

theorem render_loop_settles:
  assumes "reachable s" and "env_ok s e"
  shows "reachable (grid_report (render_cycle s e) (items (render_cycle s e))) \<and>
         grid_report (render_cycle s e) (items (render_cycle s e)) =
           (render_cycle s e)\<lparr>items := sort_key (\<lambda>it. (item_y it, item_x it)) (items (render_cycle s e))\<rparr> \<and>
         grid_report (grid_report (render_cycle s e) (items (render_cycle s e)))
           (items (grid_report (render_cycle s e) (items (render_cycle s e)))) =
         grid_report (render_cycle s e) (items (render_cycle s e))"
proof -
  let ?s1 = "render_cycle s e"
  let ?s2 = "grid_report ?s1 (items ?s1)"
  have rc: "reachable ?s1 \<and> ?s1 = (step s e)\<lparr>items := compact (columns (step s e)) (items (step s e))\<rparr> \<and>
            0 < columns (step s e)"
    using assms by (rule render_cycle_report)
  define c where "c = columns (step s e)"
  define X where "X = items (step s e)"
  have c: "0 < c" and cols1: "columns ?s1 = c" and items1: "items ?s1 = compact c X"
    using rc by (simp_all add: c_def X_def)
  note r1 = conjunct1 [OF rc]
  note g = grid_report_sound [OF r1 refl]
  have r2: "reachable ?s2" using g by (rule conjunct1)
  have g2: "?s2 = ?s1\<lparr>items := compact c (items ?s1)\<rparr>"
    using conjunct2 [OF g] cols1 by simp
  then have cols2: "columns ?s2 = c" and items2: "items ?s2 = compact c (compact c X)"
    using cols1 items1 by simp_all
  have g3: "grid_report ?s2 (items ?s2) = ?s2\<lparr>items := compact c (items ?s2)\<rparr>"
    using conjunct2 [OF grid_report_sound [OF r2 refl]] cols2 by simp
  show ?thesis
    using r2 g2 g3 items1 items2 compact_twice [OF c] compact_thrice [OF c] by simp
qed

theorem render_loop_settles_witness:
  "reachable initial_state \<and> env_ok initial_state AddWidget \<and>
   map item_i (items (grid_report (render_cycle initial_state AddWidget)
                        (items (render_cycle initial_state AddWidget)))) = [''a'', ''b'', ''new-0'']"
proof -
  have r: "reachable initial_state" by (rule reachable.initial)
  have "map item_i (sort_key (\<lambda>it. (item_y it, item_x it)) (items (render_cycle initial_state AddWidget))) =
        [''a'', ''b'', ''new-0'']"
    by code_simp
  with render_loop_settles [OF r, of AddWidget] r show ?thesis by simp
qed

end
